theory Spec2Isabelle
  imports Complex_Main
begin

section \<open>JavaScript values\<close>

text \<open>
  The analysis pipeline of \<^verbatim>\<open>backend/routes/images.js\<close> works on three kinds of
  JavaScript data: strings, numbers and the values that \<^verbatim>\<open>JSON.parse\<close> returns.

  A JavaScript string is a sequence of UTF-16 code units; a code unit is modelled by its
  number, so that the escape \<^verbatim>\<open>\uXXXX\<close> of a JSON text has a value for every
  \<^verbatim>\<open>XXXX\<close>. \<open>str\<close> turns an Isabelle string literal into such a sequence.
\<close>

type_synonym jsstring = "nat list"

definition cu :: "char \<Rightarrow> nat" where
  "cu c = of_char c"

definition str :: "string \<Rightarrow> jsstring" where
  "str s = map cu s"

text \<open>
  A JavaScript number is an IEEE double. The model keeps the three values that are not
  finite and represents every finite double by the rational it denotes; arithmetic on
  finite values is exact (no rounding to 53 bits, and \<open>-0\<close> is \<open>0\<close>), and a result whose
  magnitude reaches \<open>2^1024 - 2^970\<close> (the least value that rounds to an infinity)
  is the infinity of its sign, as for doubles.
\<close>

datatype jsnum = NaN | PosInf | NegInf | Fin rat

definition overflow_bound :: rat where
  "overflow_bound = 2 ^ 1024 - 2 ^ 970"

definition fin :: "rat \<Rightarrow> jsnum" where
  "fin q = (if overflow_bound \<le> q then PosInf
            else if q \<le> - overflow_bound then NegInf
            else Fin q)"

text \<open>The values of \<^verbatim>\<open>JSON.parse\<close>. An object lists its own properties in order.\<close>

datatype json =
    JNull
  | JBool bool
  | JNum jsnum
  | JStr jsstring
  | JArr "json list"
  | JObj "(jsstring \<times> json) list"

text \<open>The exceptions the worker can meet.\<close>

datatype error =
    SyntaxError     \<comment> \<open>thrown by \<^verbatim>\<open>JSON.parse\<close>\<close>
  | TypeError       \<comment> \<open>a property of \<^verbatim>\<open>null\<close> is read, or a value that is not a function is called\<close>
  | IOError         \<comment> \<open>\<^verbatim>\<open>fs.readFile\<close> rejects\<close>
  | ModelError      \<comment> \<open>\<^verbatim>\<open>ai.models.generateContent\<close> rejects\<close>
  | DBError         \<comment> \<open>\<^verbatim>\<open>db.run\<close> rejects\<close>

subsection \<open>Arithmetic of numbers\<close>

text \<open>\<^verbatim>\<open>Math.max\<close> and \<^verbatim>\<open>Math.min\<close> of two numbers: \<open>NaN\<close> if either is.\<close>

fun Math_max :: "jsnum \<Rightarrow> jsnum \<Rightarrow> jsnum" where
  "Math_max NaN _ = NaN"
| "Math_max _ NaN = NaN"
| "Math_max PosInf _ = PosInf"
| "Math_max _ PosInf = PosInf"
| "Math_max NegInf y = y"
| "Math_max x NegInf = x"
| "Math_max (Fin a) (Fin b) = Fin (max a b)"

fun Math_min :: "jsnum \<Rightarrow> jsnum \<Rightarrow> jsnum" where
  "Math_min NaN _ = NaN"
| "Math_min _ NaN = NaN"
| "Math_min NegInf _ = NegInf"
| "Math_min _ NegInf = NegInf"
| "Math_min PosInf y = y"
| "Math_min x PosInf = x"
| "Math_min (Fin a) (Fin b) = Fin (min a b)"

text \<open>\<^verbatim>\<open>Math.round\<close>: the nearest integer, a tie going up.\<close>

fun Math_round :: "jsnum \<Rightarrow> jsnum" where
  "Math_round (Fin a) = Fin (of_int \<lfloor>a + 1 / 2\<rfloor>)"
| "Math_round x = x"

fun js_neg :: "jsnum \<Rightarrow> jsnum" where
  "js_neg NaN = NaN"
| "js_neg PosInf = NegInf"
| "js_neg NegInf = PosInf"
| "js_neg (Fin a) = Fin (- a)"

fun js_add :: "jsnum \<Rightarrow> jsnum \<Rightarrow> jsnum" where
  "js_add NaN _ = NaN"
| "js_add _ NaN = NaN"
| "js_add PosInf NegInf = NaN"
| "js_add NegInf PosInf = NaN"
| "js_add PosInf _ = PosInf"
| "js_add _ PosInf = PosInf"
| "js_add NegInf _ = NegInf"
| "js_add _ NegInf = NegInf"
| "js_add (Fin a) (Fin b) = fin (a + b)"

definition js_sub :: "jsnum \<Rightarrow> jsnum \<Rightarrow> jsnum" where
  "js_sub x y = js_add x (js_neg y)"

text \<open>The sign of a number that is not \<open>NaN\<close>: \<open>-1\<close>, \<open>0\<close> or \<open>1\<close>.\<close>

fun js_sgn :: "jsnum \<Rightarrow> rat" where
  "js_sgn NaN = 0"
| "js_sgn PosInf = 1"
| "js_sgn NegInf = - 1"
| "js_sgn (Fin a) = sgn a"

fun js_mul :: "jsnum \<Rightarrow> jsnum \<Rightarrow> jsnum" where
  "js_mul NaN _ = NaN"
| "js_mul _ NaN = NaN"
| "js_mul (Fin a) (Fin b) = fin (a * b)"
| "js_mul x y =
     (if js_sgn x * js_sgn y = 0 then NaN
      else if 0 < js_sgn x * js_sgn y then PosInf else NegInf)"

fun js_div :: "jsnum \<Rightarrow> jsnum \<Rightarrow> jsnum" where
  "js_div NaN _ = NaN"
| "js_div _ NaN = NaN"
| "js_div (Fin a) (Fin b) =
     (if b = 0 then (if a = 0 then NaN else if 0 < a then PosInf else NegInf)
      else fin (a / b))"
| "js_div (Fin a) _ = Fin 0"
| "js_div x (Fin b) =
     (if 0 < js_sgn x * (if b < 0 then - 1 else 1) then PosInf else NegInf)"
| "js_div _ _ = NaN"

section \<open>\<^verbatim>\<open>JSON.parse\<close>\<close>

text \<open>
  \<^verbatim>\<open>JSON.parse\<close> is the runtime's, not the repository's; it is modelled after the JSON
  grammar of ECMAScript: a lexer for the tokens, and a pushdown automaton for values,
  arrays and objects. Both fail on every text that is not a JSON text.
\<close>

subsection \<open>Tokens\<close>

datatype token =
    LBRACE | RBRACE | LBRACK | RBRACK | COLON | COMMA
  | TString jsstring
  | TLit json   \<comment> \<open>a number, \<^verbatim>\<open>true\<close>, \<^verbatim>\<open>false\<close> or \<^verbatim>\<open>null\<close>\<close>

definition QUOTE :: nat where
  "QUOTE = cu (CHR 0x22)"

definition BACKSLASH :: nat where
  "BACKSLASH = cu (CHR 0x5C)"

definition is_json_ws :: "nat \<Rightarrow> bool" where
  "is_json_ws c = (c = 9 \<or> c = 10 \<or> c = 13 \<or> c = 32)"

definition is_digit :: "nat \<Rightarrow> bool" where
  "is_digit c = (cu CHR ''0'' \<le> c \<and> c \<le> cu CHR ''9'')"

definition digits_val :: "jsstring \<Rightarrow> nat" where
  "digits_val ds = foldl (\<lambda>a d. 10 * a + (d - cu CHR ''0'')) 0 ds"

definition hex_val :: "nat \<Rightarrow> nat option" where
  "hex_val c =
     (if is_digit c then Some (c - cu CHR ''0'')
      else if cu CHR ''a'' \<le> c \<and> c \<le> cu CHR ''f'' then Some (c - cu CHR ''a'' + 10)
      else if cu CHR ''A'' \<le> c \<and> c \<le> cu CHR ''F'' then Some (c - cu CHR ''A'' + 10)
      else None)"

text \<open>The character after a backslash, other than \<^verbatim>\<open>u\<close>.\<close>

definition escape :: "nat \<Rightarrow> nat option" where
  "escape e =
     (if e = QUOTE \<or> e = BACKSLASH \<or> e = cu CHR ''/'' then Some e
      else if e = cu CHR ''b'' then Some 8
      else if e = cu CHR ''f'' then Some 12
      else if e = cu CHR ''n'' then Some 10
      else if e = cu CHR ''r'' then Some 13
      else if e = cu CHR ''t'' then Some 9
      else None)"

text \<open>
  The rest of a string token, after its opening quote: the string's value and the text
  after the closing quote. Control characters are refused.
\<close>

fun lex_string :: "jsstring \<Rightarrow> (jsstring \<times> jsstring) option" where
  "lex_string [] = None"
| "lex_string (c # cs) =
     (if c = QUOTE then Some ([], cs)
      else if c = BACKSLASH then
        (case cs of
           [] \<Rightarrow> None
         | e # cs' \<Rightarrow>
             if e = cu CHR ''u'' then
               (case cs' of
                  h1 # h2 # h3 # h4 # cs'' \<Rightarrow>
                    (case (hex_val h1, hex_val h2, hex_val h3, hex_val h4) of
                       (Some a, Some b, Some c, Some d) \<Rightarrow>
                         map_option (\<lambda>(s, r). ((((a * 16 + b) * 16 + c) * 16 + d) # s, r))
                           (lex_string cs'')
                     | _ \<Rightarrow> None)
                | _ \<Rightarrow> None)
             else
               (case escape e of
                  None \<Rightarrow> None
                | Some x \<Rightarrow> map_option (\<lambda>(s, r). (x # s, r)) (lex_string cs')))
      else if c < 32 then None
      else map_option (\<lambda>(s, r). (c # s, r)) (lex_string cs))"

text \<open>
  A number token: \<^verbatim>\<open>-? (0 | [1-9][0-9]*) (. [0-9]+)? ([eE] [+-]? [0-9]+)?\<close>, the longest
  there is, and its value.
\<close>

definition scan_exponent :: "jsstring \<Rightarrow> int \<times> jsstring" where
  "scan_exponent cs =
     (case cs of
        [] \<Rightarrow> (0, cs)
      | e # r \<Rightarrow>
          if e = cu CHR ''e'' \<or> e = cu CHR ''E'' then
            (let (sg, r') =
                   (case r of
                      [] \<Rightarrow> (1, r)
                    | s # r1 \<Rightarrow>
                        if s = cu CHR ''-'' then (- 1, r1)
                        else if s = cu CHR ''+'' then (1, r1)
                        else (1, r))
             in if takeWhile is_digit r' = [] then (0, cs)
                else (sg * int (digits_val (takeWhile is_digit r')), dropWhile is_digit r'))
          else (0, cs))"

definition scan_fraction :: "jsstring \<Rightarrow> jsstring \<times> jsstring" where
  "scan_fraction cs =
     (case cs of
        [] \<Rightarrow> ([], cs)
      | p # r \<Rightarrow>
          if p = cu CHR ''.'' \<and> takeWhile is_digit r \<noteq> []
          then (takeWhile is_digit r, dropWhile is_digit r)
          else ([], cs))"

definition number_value :: "bool \<Rightarrow> jsstring \<Rightarrow> jsstring \<Rightarrow> int \<Rightarrow> jsnum" where
  "number_value neg ip fp ex =
     (let m = of_nat (digits_val (ip @ fp));
          e = ex - int (length fp);
          q = (if 0 \<le> e then m * 10 ^ nat e else m / 10 ^ nat (- e))
      in fin (if neg then - q else q))"

definition lex_number :: "jsstring \<Rightarrow> (jsnum \<times> jsstring) option" where
  "lex_number cs =
     (let (neg, cs1) =
            (case cs of
               [] \<Rightarrow> (False, cs)
             | c # r \<Rightarrow> if c = cu CHR ''-'' then (True, r) else (False, cs))
      in case cs1 of
           [] \<Rightarrow> None
         | d # r \<Rightarrow>
             if \<not> is_digit d then None
             else
               let (ip, cs2) =
                     (if d = cu CHR ''0'' then ([d], r)
                      else (d # takeWhile is_digit r, dropWhile is_digit r));
                   (fp, cs3) = scan_fraction cs2;
                   (ex, cs4) = scan_exponent cs3
               in Some (number_value neg ip fp ex, cs4))"

lemma lex_string_length:
  "lex_string cs = Some (s, rest) \<Longrightarrow> length rest < length cs"
proof (induction cs arbitrary: s rule: lex_string.induct)
  case 1
  then show ?case by simp
next
  case (2 c cs)
  then show ?case
    by (fastforce split: if_splits list.splits option.splits prod.splits)
qed

lemma scan_exponent_length: "length (snd (scan_exponent cs)) \<le> length cs"
  by (auto simp: scan_exponent_def Let_def split: list.splits prod.splits
      intro: order_trans [OF length_dropWhile_le])

lemma scan_fraction_length: "length (snd (scan_fraction cs)) \<le> length cs"
  by (auto simp: scan_fraction_def split: list.splits
      intro: order_trans [OF length_dropWhile_le])

lemma lex_number_length:
  assumes "lex_number cs = Some (n, rest)"
  shows "length rest < length cs"
proof -
  obtain neg cs1 where a: "(neg, cs1) = (case cs of [] \<Rightarrow> (False, cs)
      | c # r \<Rightarrow> if c = cu CHR ''-'' then (True, r) else (False, cs))"
    by (metis surj_pair)
  have l1: "length cs1 \<le> length cs"
    using a by (auto split: list.splits if_splits)
  from assms a [symmetric] obtain d r where c: "cs1 = d # r"
    by (auto simp: lex_number_def Let_def split: list.splits)
  define cs2 where "cs2 = snd (if d = cu CHR ''0'' then ([d], r)
                      else (d # takeWhile is_digit r, dropWhile is_digit r))"
  have l2: "length cs2 \<le> length r"
    by (simp add: cs2_def length_dropWhile_le)
  have "rest = snd (scan_exponent (snd (scan_fraction cs2)))"
    using assms a [symmetric] c
    by (auto simp: lex_number_def Let_def cs2_def split: if_splits prod.splits)
  then have "length rest \<le> length cs2"
    using scan_exponent_length scan_fraction_length order_trans by metis
  with l1 l2 c show ?thesis by simp
qed

text \<open>The tokens of a text; white space separates them.\<close>

function lex :: "jsstring \<Rightarrow> token list option" where
  "lex [] = Some []"
| "lex (c # cs) =
     (if is_json_ws c then lex cs
      else if c = cu CHR ''{'' then map_option (Cons LBRACE) (lex cs)
      else if c = cu CHR ''}'' then map_option (Cons RBRACE) (lex cs)
      else if c = cu CHR ''['' then map_option (Cons LBRACK) (lex cs)
      else if c = cu CHR '']'' then map_option (Cons RBRACK) (lex cs)
      else if c = cu CHR '':'' then map_option (Cons COLON) (lex cs)
      else if c = cu CHR '','' then map_option (Cons COMMA) (lex cs)
      else if c = QUOTE then
        (case lex_string cs of
           None \<Rightarrow> None
         | Some (s, rest) \<Rightarrow> map_option (Cons (TString s)) (lex rest))
      else if c = cu CHR ''-'' \<or> is_digit c then
        (case lex_number (c # cs) of
           None \<Rightarrow> None
         | Some (n, rest) \<Rightarrow> map_option (Cons (TLit (JNum n))) (lex rest))
      else if take 4 (c # cs) = str ''true'' then
        map_option (Cons (TLit (JBool True))) (lex (drop 3 cs))
      else if take 5 (c # cs) = str ''false'' then
        map_option (Cons (TLit (JBool False))) (lex (drop 4 cs))
      else if take 4 (c # cs) = str ''null'' then
        map_option (Cons (TLit JNull)) (lex (drop 3 cs))
      else None)"
  by pat_completeness auto
termination
proof (relation "measure length")
  show "wf (measure length)" by simp
next
  fix c cs x2 x y
  assume "lex_string cs = Some x2" "(x, y) = x2"
  then show "(y, c # cs) \<in> measure length"
    using lex_string_length [of cs x y] by simp
next
  fix c cs x2 x y
  assume "lex_number (c # cs) = Some x2" "(x, y) = x2"
  then show "(y, c # cs) \<in> measure length"
    using lex_number_length [of "c # cs" x y] by simp
qed simp_all

subsection \<open>Objects\<close>

text \<open>
  The own properties of an object are listed as \<^verbatim>\<open>JSON.stringify\<close> and
  \<^verbatim>\<open>Object.keys\<close> enumerate them: the array indices (the canonical numerals below
  \<open>2^32 - 1\<close>) in ascending order, then the other keys in the order of their creation.
  Writing a property that exists replaces its value where it stands.
\<close>

definition array_index :: "jsstring \<Rightarrow> nat option" where
  "array_index k =
     (if k \<noteq> [] \<and> list_all is_digit k \<and> (length k = 1 \<or> hd k \<noteq> cu CHR ''0'')
         \<and> digits_val k < 2 ^ 32 - 1
      then Some (digits_val k) else None)"

definition comes_before :: "nat \<Rightarrow> jsstring \<times> json \<Rightarrow> bool" where
  "comes_before i kv = (case array_index (fst kv) of None \<Rightarrow> False | Some j \<Rightarrow> j < i)"

definition put :: "jsstring \<Rightarrow> json \<Rightarrow> (jsstring \<times> json) list \<Rightarrow> (jsstring \<times> json) list" where
  "put k v ms =
     (if k \<in> fst ` set ms then map (\<lambda>kv. if fst kv = k then (k, v) else kv) ms
      else case array_index k of
             None \<Rightarrow> ms @ [(k, v)]
           | Some i \<Rightarrow> takeWhile (comes_before i) ms @ (k, v) # dropWhile (comes_before i) ms)"

subsection \<open>Values\<close>

text \<open>
  A frame is an array or an object whose next value is being read; a state says what
  the next token may be.
\<close>

datatype frame =
    InArr "json list"                           \<comment> \<open>the elements read so far\<close>
  | InObj "(jsstring \<times> json) list" jsstring    \<comment> \<open>the members read so far, and the key of the next\<close>

datatype pstate =
    PValue "frame list"                                   \<comment> \<open>a value\<close>
  | PArr0 "frame list"                                    \<comment> \<open>after \<^verbatim>\<open>[\<close>: a value or \<^verbatim>\<open>]\<close>\<close>
  | PArrN "json list" "frame list"                        \<comment> \<open>after an element: \<^verbatim>\<open>,\<close> or \<^verbatim>\<open>]\<close>\<close>
  | PObj0 "frame list"                                    \<comment> \<open>after \<^verbatim>\<open>{\<close>: a key or \<^verbatim>\<open>}\<close>\<close>
  | PObjK "(jsstring \<times> json) list" "frame list"           \<comment> \<open>after \<^verbatim>\<open>,\<close> in an object: a key\<close>
  | PObjC "(jsstring \<times> json) list" jsstring "frame list"  \<comment> \<open>after a key: \<^verbatim>\<open>:\<close>\<close>
  | PObjN "(jsstring \<times> json) list" "frame list"           \<comment> \<open>after a member: \<^verbatim>\<open>,\<close> or \<^verbatim>\<open>}\<close>\<close>
  | PDone json                                            \<comment> \<open>the text's value is read\<close>

fun deliver :: "json \<Rightarrow> frame list \<Rightarrow> pstate" where
  "deliver v [] = PDone v"
| "deliver v (InArr es # st) = PArrN (es @ [v]) st"
| "deliver v (InObj ms k # st) = PObjN (put k v ms) st"

text \<open>The first token of a value.\<close>

fun pvalue :: "frame list \<Rightarrow> token \<Rightarrow> pstate option" where
  "pvalue st LBRACK = Some (PArr0 st)"
| "pvalue st LBRACE = Some (PObj0 st)"
| "pvalue st (TString s) = Some (deliver (JStr s) st)"
| "pvalue st (TLit v) = Some (deliver v st)"
| "pvalue st _ = None"

fun pstep :: "pstate \<Rightarrow> token \<Rightarrow> pstate option" where
  "pstep (PValue st) t = pvalue st t"
| "pstep (PArr0 st) RBRACK = Some (deliver (JArr []) st)"
| "pstep (PArr0 st) t = pvalue (InArr [] # st) t"
| "pstep (PArrN es st) COMMA = Some (PValue (InArr es # st))"
| "pstep (PArrN es st) RBRACK = Some (deliver (JArr es) st)"
| "pstep (PObj0 st) RBRACE = Some (deliver (JObj []) st)"
| "pstep (PObj0 st) (TString k) = Some (PObjC [] k st)"
| "pstep (PObjK ms st) (TString k) = Some (PObjC ms k st)"
| "pstep (PObjC ms k st) COLON = Some (PValue (InObj ms k # st))"
| "pstep (PObjN ms st) COMMA = Some (PObjK ms st)"
| "pstep (PObjN ms st) RBRACE = Some (deliver (JObj ms) st)"
| "pstep _ _ = None"

fun prun :: "pstate \<Rightarrow> token list \<Rightarrow> pstate option" where
  "prun s [] = Some s"
| "prun s (t # ts) = (case pstep s t of None \<Rightarrow> None | Some s' \<Rightarrow> prun s' ts)"

definition JSON_parse :: "jsstring \<Rightarrow> error + json" where
  "JSON_parse text =
     (case lex text of
        None \<Rightarrow> Inl SyntaxError
      | Some ts \<Rightarrow>
          (case prun (PValue []) ts of
             Some (PDone v) \<Rightarrow> Inr v
           | _ \<Rightarrow> Inl SyntaxError))"

section \<open>Conversions of the runtime\<close>

subsection \<open>\<^verbatim>\<open>Number(value)\<close>\<close>

text \<open>
  The white space that the conversion of a string to a number strips from both ends:
  the white space and the line terminators of ECMAScript.
\<close>

definition is_str_ws :: "nat \<Rightarrow> bool" where
  "is_str_ws c =
     (c \<in> {9, 10, 11, 12, 13, 32, 160, 0x1680, 0x2028, 0x2029, 0x202F, 0x205F, 0x3000, 0xFEFF}
      \<or> (0x2000 \<le> c \<and> c \<le> 0x200A))"

definition trim :: "jsstring \<Rightarrow> jsstring" where
  "trim s = rev (dropWhile is_str_ws (rev (dropWhile is_str_ws s)))"

text \<open>The value of a numeral in base 2, 8 or 16; \<open>None\<close> when it has no digit or a wrong one.\<close>

definition radix_digit :: "nat \<Rightarrow> nat \<Rightarrow> nat option" where
  "radix_digit b c = (case hex_val c of None \<Rightarrow> None | Some d \<Rightarrow> if d < b then Some d else None)"

definition radix_val :: "nat \<Rightarrow> jsstring \<Rightarrow> nat option" where
  "radix_val b ds =
     (if ds = [] then None
      else map_option (foldl (\<lambda>a d. b * a + d) 0) (those (map (radix_digit b) ds)))"

text \<open>
  An unsigned decimal literal: \<^verbatim>\<open>Infinity\<close>, or digits with an optional fraction and an
  optional exponent, where the digits before or after the point may be missing, but
  not both.
\<close>

definition unsigned_decimal :: "jsstring \<Rightarrow> jsnum" where
  "unsigned_decimal t =
     (if t = str ''Infinity'' then PosInf
      else
        let ip = takeWhile is_digit t;
            r = dropWhile is_digit t;
            (fp, r1) = (case r of
                          [] \<Rightarrow> ([], r)
                        | p # r' \<Rightarrow>
                            if p = cu CHR ''.'' then (takeWhile is_digit r', dropWhile is_digit r')
                            else ([], r));
            (ex, r2) = scan_exponent r1
        in if ip @ fp = [] \<or> r2 \<noteq> [] then NaN
           else number_value False ip fp ex)"

text \<open>
  \<^verbatim>\<open>Number(s)\<close> for a string: \<open>0\<close> for the empty or blank string, the value of a
  binary, octal, hexadecimal or signed decimal literal between white space, and
  \<open>NaN\<close> for every other string.
\<close>

definition StringToNumber :: "jsstring \<Rightarrow> jsnum" where
  "StringToNumber s =
     (let t = trim s in
      if t = [] then Fin 0
      else if take 2 t \<in> {str ''0x'', str ''0X''} then
        (case radix_val 16 (drop 2 t) of None \<Rightarrow> NaN | Some n \<Rightarrow> fin (of_nat n))
      else if take 2 t \<in> {str ''0o'', str ''0O''} then
        (case radix_val 8 (drop 2 t) of None \<Rightarrow> NaN | Some n \<Rightarrow> fin (of_nat n))
      else if take 2 t \<in> {str ''0b'', str ''0B''} then
        (case radix_val 2 (drop 2 t) of None \<Rightarrow> NaN | Some n \<Rightarrow> fin (of_nat n))
      else if hd t = cu CHR ''-'' then js_neg (unsigned_decimal (tl t))
      else if hd t = cu CHR ''+'' then unsigned_decimal (tl t)
      else unsigned_decimal t)"

text \<open>
  \<^verbatim>\<open>Number(v)\<close> for a value of \<^verbatim>\<open>JSON.parse\<close>. An array converts through its string,
  the strings of its elements joined by commas: the empty array is \<open>0\<close>, an array of two
  or more elements has a comma in its string and is \<open>NaN\<close>, and an array of one element
  converts as the string of this element (the empty string for \<^verbatim>\<open>null\<close>; the string of
  a number converts back to the number). An object's string is no numeral.
\<close>

fun ToNumber :: "json \<Rightarrow> jsnum" where
  "ToNumber JNull = Fin 0"
| "ToNumber (JBool b) = Fin (if b then 1 else 0)"
| "ToNumber (JNum n) = n"
| "ToNumber (JStr s) = StringToNumber s"
| "ToNumber (JObj ms) = NaN"
| "ToNumber (JArr []) = Fin 0"
| "ToNumber (JArr [x]) =
     (case x of
        JNull \<Rightarrow> Fin 0
      | JBool b \<Rightarrow> NaN
      | JNum n \<Rightarrow> n
      | JStr s \<Rightarrow> StringToNumber s
      | JArr ys \<Rightarrow> ToNumber (JArr ys)
      | JObj ms \<Rightarrow> NaN)"
| "ToNumber (JArr (x # y # zs)) = NaN"

subsection \<open>Truth, properties and strings\<close>

text \<open>
  A property read \<^verbatim>\<open>v.k\<close> gives a value or \<^verbatim>\<open>undefined\<close>, which is \<open>None\<close>. Reading a
  property of \<^verbatim>\<open>null\<close> throws. The worker reads the keys \<^verbatim>\<open>items\<close>, \<^verbatim>\<open>weedCoverage\<close>,
  \<^verbatim>\<open>healthyCropCoverage\<close>, \<^verbatim>\<open>totalArea\<close>, \<^verbatim>\<open>label\<close> and \<^verbatim>\<open>box_2d\<close> only, which no
  string, number, boolean or array has, and no prototype.
\<close>

fun get_prop :: "json \<Rightarrow> jsstring \<Rightarrow> error + json option" where
  "get_prop JNull k = Inl TypeError"
| "get_prop (JObj ms) k = Inr (map_of ms k)"
| "get_prop v k = Inr None"

text \<open>The values that count as true in \<^verbatim>\<open>a || b\<close>.\<close>

fun truthy :: "json option \<Rightarrow> bool" where
  "truthy None = False"
| "truthy (Some JNull) = False"
| "truthy (Some (JBool b)) = b"
| "truthy (Some (JNum n)) = (n \<noteq> NaN \<and> n \<noteq> Fin 0)"
| "truthy (Some (JStr s)) = (s \<noteq> [])"
| "truthy (Some v) = True"

text \<open>\<^verbatim>\<open>v == null\<close>: \<^verbatim>\<open>v\<close> is \<^verbatim>\<open>undefined\<close> or \<^verbatim>\<open>null\<close>.\<close>

fun nullish :: "json option \<Rightarrow> bool" where
  "nullish None = True"
| "nullish (Some JNull) = True"
| "nullish (Some v) = False"

text \<open>\<^verbatim>\<open>Number.isNaN(v)\<close>: \<^verbatim>\<open>v\<close> is the number \<open>NaN\<close>; no conversion is made.\<close>

fun Number_isNaN :: "json option \<Rightarrow> bool" where
  "Number_isNaN (Some (JNum n)) = (n = NaN)"
| "Number_isNaN v = False"

text \<open>
  \<^verbatim>\<open>s.toLowerCase()\<close> on the letters \<^verbatim>\<open>A\<close> to \<^verbatim>\<open>Z\<close>. Unicode maps code units outside
  ASCII too, but never to one of the letters of \<^verbatim>\<open>weed\<close> or \<^verbatim>\<open>crop\<close>, which is all the
  worker looks for in the result.
\<close>

definition toLowerCase :: "jsstring \<Rightarrow> jsstring" where
  "toLowerCase s = map (\<lambda>c. if cu CHR ''A'' \<le> c \<and> c \<le> cu CHR ''Z'' then c + 32 else c) s"

text \<open>\<^verbatim>\<open>s.includes(w)\<close>: \<^verbatim>\<open>w\<close> occurs in \<^verbatim>\<open>s\<close>.\<close>

fun includes_str :: "jsstring \<Rightarrow> jsstring \<Rightarrow> bool" where
  "includes_str [] w = (w = [])"
| "includes_str (c # cs) w = (take (length w) (c # cs) = w \<or> includes_str cs w)"

section \<open>The result normalizer\<close>

text \<open>
  Lines 127 to 174 of \<^verbatim>\<open>analyzeImage\<close>: from the text of the model's response to the
  value \<^verbatim>\<open>segmentationData\<close> that the worker stores.
\<close>

subsection \<open>Extraction of the JSON span\<close>

text \<open>
  \<^verbatim>\<open>analysisText.match(/\{[\s\S]*\}/)\<close>: the class \<^verbatim>\<open>[\s\S]\<close> is every code unit and
  the star is greedy, so the match runs from the first \<^verbatim>\<open>{\<close> of the text to its last
  \<^verbatim>\<open>}\<close>, and there is none when no \<^verbatim>\<open>}\<close> follows the first \<^verbatim>\<open>{\<close>.
\<close>

definition jsonMatch :: "jsstring \<Rightarrow> jsstring option" where
  "jsonMatch analysisText =
     (case dropWhile (\<lambda>c. c \<noteq> cu CHR ''{'') analysisText of
        [] \<Rightarrow> None
      | b # rest \<Rightarrow>
          if cu CHR ''}'' \<in> set rest
          then Some (b # rev (dropWhile (\<lambda>c. c \<noteq> cu CHR ''}'') (rev rest)))
          else None)"

text \<open>The object of the \<^verbatim>\<open>else\<close> branch, lines 136 to 141.\<close>

definition fallback :: json where
  "fallback =
     JObj [(str ''items'', JArr []),
           (str ''weedCoverage'', JNum (Fin 0)),
           (str ''healthyCropCoverage'', JNum (Fin 100)),
           (str ''recommendations'', JArr [JStr (str ''Unable to analyze image details'')])]"

text \<open>Lines 130 to 142: \<^verbatim>\<open>JSON.parse\<close> throws on a span that is no JSON text.\<close>

definition parse_response :: "jsstring \<Rightarrow> error + json" where
  "parse_response analysisText =
     (case jsonMatch analysisText of
        Some m \<Rightarrow> JSON_parse m
      | None \<Rightarrow> Inr fallback)"

subsection \<open>The area of a box\<close>

text \<open>\<^verbatim>\<open>Math.max(0, Math.min(1000, Number(b) || 0))\<close>\<close>

definition or_zero :: "jsnum \<Rightarrow> jsnum" where
  "or_zero n = (if n = NaN \<or> n = Fin 0 then Fin 0 else n)"

definition coord :: "json \<Rightarrow> jsnum" where
  "coord b = Math_max (Fin 0) (Math_min (Fin 1000) (or_zero (ToNumber b)))"

text \<open>
  \<^verbatim>\<open>areaOf\<close>, lines 147 to 156. The argument is \<^verbatim>\<open>it.box_2d\<close>, which may be
  \<^verbatim>\<open>undefined\<close>; everything but an array of length four has the area \<open>0\<close>.
\<close>

definition areaOf :: "json option \<Rightarrow> jsnum" where
  "areaOf box =
     (case box of
        Some (JArr [b0, b1, b2, b3]) \<Rightarrow>
          let ymin = coord b0;
              xmin = coord b1;
              ymax = coord b2;
              xmax = coord b3;
              w = Math_max (Fin 0) (js_sub xmax xmin);
              h = Math_max (Fin 0) (js_sub ymax ymin)
          in js_div (js_mul w h) (js_mul (Fin 1000) (Fin 1000))
      | _ \<Rightarrow> Fin 0)"

subsection \<open>The area of the items of a label\<close>

text \<open>
  \<^verbatim>\<open>(it.label || '').toLowerCase().includes(word)\<close>: throws when \<^verbatim>\<open>it\<close> is \<^verbatim>\<open>null\<close>,
  and when the label is true in the sense of \<^verbatim>\<open>||\<close> and not a string, since only
  strings have the method \<^verbatim>\<open>toLowerCase\<close>.
\<close>

definition label_includes :: "jsstring \<Rightarrow> json \<Rightarrow> error + bool" where
  "label_includes word it =
     (case get_prop it (str ''label'') of
        Inl e \<Rightarrow> Inl e
      | Inr l \<Rightarrow>
          if \<not> truthy l then Inr (includes_str (toLowerCase []) word)
          else (case l of
                  Some (JStr s) \<Rightarrow> Inr (includes_str (toLowerCase s) word)
                | _ \<Rightarrow> Inl TypeError))"

text \<open>\<^verbatim>\<open>items.filter(...)\<close>: the callback runs on every element, in order.\<close>

fun filter_items :: "jsstring \<Rightarrow> json list \<Rightarrow> error + json list" where
  "filter_items word [] = Inr []"
| "filter_items word (it # its) =
     (case label_includes word it of
        Inl e \<Rightarrow> Inl e
      | Inr b \<Rightarrow>
          (case filter_items word its of
             Inl e \<Rightarrow> Inl e
           | Inr r \<Rightarrow> Inr (if b then it # r else r)))"

text \<open>\<^verbatim>\<open>.reduce((sum, it) => sum + areaOf(it.box_2d), sum0)\<close>\<close>

fun sum_areas :: "jsnum \<Rightarrow> json list \<Rightarrow> error + jsnum" where
  "sum_areas acc [] = Inr acc"
| "sum_areas acc (it # its) =
     (case get_prop it (str ''box_2d'') of
        Inl e \<Rightarrow> Inl e
      | Inr box \<Rightarrow> sum_areas (js_add acc (areaOf box)) its)"

text \<open>\<^verbatim>\<open>weedArea\<close> and \<^verbatim>\<open>cropArea\<close>, lines 158 to 163, for the word of each.\<close>

definition label_area :: "jsstring \<Rightarrow> json list \<Rightarrow> error + jsnum" where
  "label_area word items =
     (case filter_items word items of
        Inl e \<Rightarrow> Inl e
      | Inr matching \<Rightarrow> sum_areas (Fin 0) matching)"

text \<open>\<^verbatim>\<open>Math.round(Math.max(0, Math.min(100, area * 100)))\<close>\<close>

definition percent :: "jsnum \<Rightarrow> jsnum" where
  "percent area = Math_round (Math_max (Fin 0) (Math_min (Fin 100) (js_mul area (Fin 100))))"

subsection \<open>Backfill of the missing fields\<close>

text \<open>
  Lines 144 to 174. \<^verbatim>\<open>segmentationData\<close> is an object on both branches of line
  133; the areas are computed before any field is looked at, so an item that throws
  fails the worker whatever fields are present.
\<close>

definition derive_coverage :: "json \<Rightarrow> error + json" where
  "derive_coverage segmentationData =
     (case segmentationData of
        JNull \<Rightarrow> Inl TypeError
      | JObj ms \<Rightarrow>
          (case map_of ms (str ''items'') of
             Some (JArr items) \<Rightarrow>
               (case label_area (str ''weed'') items of
                  Inl e \<Rightarrow> Inl e
                | Inr weedArea \<Rightarrow>
                    (case label_area (str ''crop'') items of
                       Inl e \<Rightarrow> Inl e
                     | Inr cropArea \<Rightarrow>
                         let ms1 = (if nullish (map_of ms (str ''weedCoverage''))
                                       \<or> Number_isNaN (map_of ms (str ''weedCoverage''))
                                    then put (str ''weedCoverage'') (JNum (percent weedArea)) ms
                                    else ms);
                             ms2 = (if nullish (map_of ms1 (str ''healthyCropCoverage''))
                                       \<or> Number_isNaN (map_of ms1 (str ''healthyCropCoverage''))
                                    then put (str ''healthyCropCoverage'') (JNum (percent cropArea)) ms1
                                    else ms1);
                             ms3 = (if nullish (map_of ms2 (str ''totalArea''))
                                    then put (str ''totalArea'') (JNum (Fin 100)) ms2
                                    else ms2)
                         in Inr (JObj ms3)))
           | _ \<Rightarrow> Inr (JObj ms))
      | v \<Rightarrow> Inr v)"

definition normalize :: "jsstring \<Rightarrow> error + json" where
  "normalize analysisText =
     (case parse_response analysisText of
        Inl e \<Rightarrow> Inl e
      | Inr segmentationData \<Rightarrow> derive_coverage segmentationData)"

section \<open>\<^verbatim>\<open>JSON.stringify\<close>\<close>

text \<open>
  The text the worker stores, \<^verbatim>\<open>JSON.stringify(segmentationData)\<close>, after the
  serialization of ECMAScript.
\<close>

subsection \<open>Strings\<close>

definition hex_char :: "nat \<Rightarrow> nat" where
  "hex_char d = (if d < 10 then cu CHR ''0'' + d else cu CHR ''a'' + (d - 10))"

definition unicode_escape :: "nat \<Rightarrow> jsstring" where
  "unicode_escape c =
     [BACKSLASH, cu CHR ''u'', hex_char (c div 4096 mod 16), hex_char (c div 256 mod 16),
      hex_char (c div 16 mod 16), hex_char (c mod 16)]"

definition is_lead :: "nat \<Rightarrow> bool" where
  "is_lead c = (0xD800 \<le> c \<and> c \<le> 0xDBFF)"

definition is_trail :: "nat \<Rightarrow> bool" where
  "is_trail c = (0xDC00 \<le> c \<and> c \<le> 0xDFFF)"

text \<open>
  The characters of a quoted string: the quote, the backslash and the control
  characters are escaped, and so is a surrogate that is not half of a pair.
\<close>

fun quote_chars :: "jsstring \<Rightarrow> jsstring" where
  "quote_chars [] = []"
| "quote_chars [c] =
     (if c = 8 then [BACKSLASH, cu CHR ''b'']
      else if c = 9 then [BACKSLASH, cu CHR ''t'']
      else if c = 10 then [BACKSLASH, cu CHR ''n'']
      else if c = 12 then [BACKSLASH, cu CHR ''f'']
      else if c = 13 then [BACKSLASH, cu CHR ''r'']
      else if c = QUOTE then [BACKSLASH, QUOTE]
      else if c = BACKSLASH then [BACKSLASH, BACKSLASH]
      else if c < 32 \<or> is_lead c \<or> is_trail c then unicode_escape c
      else [c])"
| "quote_chars (c # d # cs) =
     (if is_lead c \<and> is_trail d then c # d # quote_chars cs
      else quote_chars [c] @ quote_chars (d # cs))"

definition quote_string :: "jsstring \<Rightarrow> jsstring" where
  "quote_string s = QUOTE # quote_chars s @ [QUOTE]"

subsection \<open>Numbers\<close>

text \<open>The decimal digits of a natural number, the first digit first.\<close>

fun dec_digits :: "nat \<Rightarrow> nat list" where
  "dec_digits n = (if n < 10 then [n] else dec_digits (n div 10) @ [n mod 10])"

declare dec_digits.simps [simp del]

text \<open>
  The number of digits after the point in the decimal expansion of a number; a double
  has 1074 at most.
\<close>

fun frac_len :: "nat \<Rightarrow> rat \<Rightarrow> nat" where
  "frac_len fuel q =
     (if fuel = 0 \<or> of_int \<lfloor>q\<rfloor> = q then 0 else Suc (frac_len (fuel - 1) (q * 10)))"

declare frac_len.simps [simp del]

definition digit_chars :: "nat list \<Rightarrow> jsstring" where
  "digit_chars ds = map (\<lambda>d. cu CHR ''0'' + d) ds"

text \<open>
  The string of a positive finite number: with \<open>s\<close> its digits without the zeros at
  the end, \<open>k\<close> their number and \<open>n\<close> the position of the point, the number is written
  as an integer, with a point, with zeros after \<^verbatim>\<open>0.\<close>, or with an exponent.
\<close>

definition positive_to_string :: "rat \<Rightarrow> jsstring" where
  "positive_to_string q =
     (let j = frac_len 1074 q;
          ds = dec_digits (nat \<lfloor>q * 10 ^ j\<rfloor>);
          s = rev (dropWhile (\<lambda>d. d = 0) (rev ds));
          k = int (length s);
          n = int (length ds) - int j
      in if k \<le> n \<and> n \<le> 21 then digit_chars (s @ replicate (nat (n - k)) 0)
         else if 0 < n \<and> n \<le> 21 then
           digit_chars (take (nat n) s) @ str ''.'' @ digit_chars (drop (nat n) s)
         else if - 6 < n \<and> n \<le> 0 then
           str ''0.'' @ digit_chars (replicate (nat (- n)) 0 @ s)
         else
           digit_chars (take 1 s) @ (if k = 1 then [] else str ''.'' @ digit_chars (drop 1 s))
           @ str ''e'' @ (if 0 \<le> n - 1 then str ''+'' else str ''-'')
           @ digit_chars (dec_digits (nat \<bar>n - 1\<bar>)))"

text \<open>A number that is not finite is written \<^verbatim>\<open>null\<close>.\<close>

fun number_to_json :: "jsnum \<Rightarrow> jsstring" where
  "number_to_json (Fin q) =
     (if q = 0 then str ''0''
      else if q < 0 then cu CHR ''-'' # positive_to_string (- q)
      else positive_to_string q)"
| "number_to_json x = str ''null''"

subsection \<open>Values\<close>

fun JSON_stringify :: "json \<Rightarrow> jsstring"
  and stringify_elements :: "json list \<Rightarrow> jsstring"
  and stringify_members :: "(jsstring \<times> json) list \<Rightarrow> jsstring" where
  "JSON_stringify JNull = str ''null''"
| "JSON_stringify (JBool b) = (if b then str ''true'' else str ''false'')"
| "JSON_stringify (JNum n) = number_to_json n"
| "JSON_stringify (JStr s) = quote_string s"
| "JSON_stringify (JArr xs) = cu CHR ''['' # stringify_elements xs @ [cu CHR '']'']"
| "JSON_stringify (JObj ms) = cu CHR ''{'' # stringify_members ms @ [cu CHR ''}'']"
| "stringify_elements [] = []"
| "stringify_elements [x] = JSON_stringify x"
| "stringify_elements (x # y # zs) =
     JSON_stringify x @ cu CHR '','' # stringify_elements (y # zs)"
| "stringify_members [] = []"
| "stringify_members [(k, v)] = quote_string k @ cu CHR '':'' # JSON_stringify v"
| "stringify_members ((k, v) # m # ms) =
     quote_string k @ cu CHR '':'' # JSON_stringify v @ cu CHR '','' # stringify_members (m # ms)"

section \<open>The image record store\<close>

text \<open>
  The table \<^verbatim>\<open>images\<close> of \<^verbatim>\<open>db.js\<close>. A column that may be \<^verbatim>\<open>NULL\<close> holds an
  option. The key is \<^verbatim>\<open>INTEGER PRIMARY KEY AUTOINCREMENT\<close>: a new row gets the
  successor of the largest key the table ever had, which \<open>last_id\<close> remembers.
\<close>

datatype status = Pending | Processing | Completed | Failed

record image_row =
  image_id :: nat
  user_id :: nat
  filename :: jsstring
  original_path :: jsstring
  analysis_result :: "jsstring option"
  segmentation_data :: "jsstring option"
  status :: status
  created_at :: nat

record database =
  images :: "image_row list"
  last_id :: nat

text \<open>
  \<^verbatim>\<open>INSERT INTO images (user_id, filename, original_path, status) VALUES (?, ?, ?, ?)\<close>:
  the columns that are not named are \<^verbatim>\<open>NULL\<close>, and \<^verbatim>\<open>created_at\<close> is the time of
  the insertion. The result is \<^verbatim>\<open>lastID\<close> and the new table.
\<close>

definition insert_image ::
  "nat \<Rightarrow> jsstring \<Rightarrow> jsstring \<Rightarrow> status \<Rightarrow> nat \<Rightarrow> database \<Rightarrow> nat \<times> database" where
  "insert_image uid name path st now d =
     (let lastID = Suc (last_id d) in
      (lastID,
       \<lparr>images = images d @
          [\<lparr>image_id = lastID, user_id = uid, filename = name, original_path = path,
            analysis_result = None, segmentation_data = None, status = st,
            created_at = now\<rparr>],
        last_id = lastID\<rparr>))"

text \<open>
  \<^verbatim>\<open>UPDATE images SET analysis_result = ?, segmentation_data = ?, status = ? WHERE id = ?\<close>
\<close>

definition update_result :: "jsstring \<Rightarrow> jsstring \<Rightarrow> status \<Rightarrow> nat \<Rightarrow> database \<Rightarrow> database" where
  "update_result text seg st imageId d =
     d\<lparr>images :=
         map (\<lambda>r. if image_id r = imageId
                  then r\<lparr>analysis_result := Some text, segmentation_data := Some seg, status := st\<rparr>
                  else r)
             (images d)\<rparr>"

text \<open>\<^verbatim>\<open>UPDATE images SET status = ? WHERE id = ?\<close>\<close>

definition update_status :: "status \<Rightarrow> nat \<Rightarrow> database \<Rightarrow> database" where
  "update_status st imageId d =
     d\<lparr>images := map (\<lambda>r. if image_id r = imageId then r\<lparr>status := st\<rparr> else r) (images d)\<rparr>"

text \<open>
  \<^verbatim>\<open>SELECT * FROM images WHERE user_id = ? ORDER BY created_at DESC\<close>, the query of
  \<^verbatim>\<open>GET /\<close>, which answers with these rows.
\<close>

definition select_by_user :: "nat \<Rightarrow> database \<Rightarrow> image_row list" where
  "select_by_user uid d = rev (sort_key created_at (filter (\<lambda>r. user_id r = uid) (images d)))"

text \<open>\<^verbatim>\<open>SELECT * FROM images WHERE id = ? AND user_id = ?\<close>, read with \<^verbatim>\<open>db.get\<close>.\<close>

definition select_image :: "nat \<Rightarrow> nat \<Rightarrow> database \<Rightarrow> image_row option" where
  "select_image imageId uid d = find (\<lambda>r. image_id r = imageId \<and> user_id r = uid) (images d)"

text \<open>\<^verbatim>\<open>DELETE FROM images WHERE id = ?\<close>\<close>

definition delete_image :: "nat \<Rightarrow> database \<Rightarrow> database" where
  "delete_image imageId d = d\<lparr>images := filter (\<lambda>r. image_id r \<noteq> imageId) (images d)\<rparr>"

section \<open>The analysis worker\<close>

text \<open>
  What one run of \<^verbatim>\<open>analyzeImage\<close> meets outside the program: whether
  \<^verbatim>\<open>fs.readFile\<close> gives the bytes, what \<^verbatim>\<open>generateContent\<close> answers (\<^verbatim>\<open>response.text\<close>
  is a string or \<^verbatim>\<open>undefined\<close>), and whether each \<^verbatim>\<open>db.run\<close> succeeds. A statement
  that fails leaves the table as it was.
\<close>

record env =
  readFile :: "error + unit"
  generateContent :: "error + jsstring option"
  run_result_ok :: bool    \<comment> \<open>the \<^verbatim>\<open>db.run\<close> of line 176\<close>
  run_failed_ok :: bool    \<comment> \<open>the \<^verbatim>\<open>db.run\<close> of line 183\<close>

text \<open>\<^verbatim>\<open>response.text || ''\<close>\<close>

definition response_text :: "jsstring option \<Rightarrow> jsstring" where
  "response_text t = (case t of None \<Rightarrow> [] | Some s \<Rightarrow> if s = [] then [] else s)"

text \<open>The \<^verbatim>\<open>try\<close> block, lines 79 to 179: the table after it, or what it throws.\<close>

definition analyze_try :: "env \<Rightarrow> nat \<Rightarrow> database \<Rightarrow> error + database" where
  "analyze_try e imageId d =
     (case readFile e of
        Inl x \<Rightarrow> Inl x
      | Inr imageBuffer \<Rightarrow>
          (case generateContent e of
             Inl x \<Rightarrow> Inl x
           | Inr response \<Rightarrow>
               let analysisText = response_text response in
               (case normalize analysisText of
                  Inl x \<Rightarrow> Inl x
                | Inr segmentationData \<Rightarrow>
                    if run_result_ok e
                    then Inr (update_result analysisText (JSON_stringify segmentationData)
                                Completed imageId d)
                    else Inl DBError)))"

text \<open>
  \<^verbatim>\<open>analyzeImage\<close>: the \<^verbatim>\<open>catch\<close> block marks the row as failed; when its own
  \<^verbatim>\<open>db.run\<close> fails the promise is rejected and the table stays as it was. Of the
  three arguments of the source only \<^verbatim>\<open>imageId\<close> reaches the table: \<^verbatim>\<open>imagePath\<close> is
  what \<^verbatim>\<open>fs.readFile\<close> reads, whose outcome is in the environment, and \<^verbatim>\<open>userId\<close> is
  not used.
\<close>

definition analyzeImage :: "env \<Rightarrow> nat \<Rightarrow> database \<Rightarrow> database" where
  "analyzeImage e imageId d =
     (case analyze_try e imageId d of
        Inr d' \<Rightarrow> d'
      | Inl error \<Rightarrow> if run_failed_ok e then update_status Failed imageId d else d)"

section \<open>The routes\<close>

text \<open>
  The state the routes share: the table, the files of the upload directory, and the
  runs of \<^verbatim>\<open>analyzeImage\<close> that were started and have not written yet. A run is
  started and not awaited (line 67), so its write comes at any later moment.
\<close>

record sys =
  db :: database
  files :: "jsstring set"
  workers :: "nat set"

definition init :: sys where
  "init = \<lparr>db = \<lparr>images = [], last_id = 0\<rparr>, files = {}, workers = {}\<rparr>"

datatype response = Ok | NotFound | ServerError

text \<open>
  What the handler of \<^verbatim>\<open>DELETE /:id\<close> meets: whether \<^verbatim>\<open>db.get\<close>, \<^verbatim>\<open>fs.unlink\<close> and
  \<^verbatim>\<open>db.run\<close> succeed. \<^verbatim>\<open>fs.unlink\<close> fails at least when the file is missing.
\<close>

record delete_env =
  get_ok :: bool
  unlink_ok :: bool
  run_ok :: bool

text \<open>
  \<^verbatim>\<open>imageRoutes.delete('/:id', ...)\<close> for the identifier of the request and the user of
  the token. The rejection of \<^verbatim>\<open>fs.unlink\<close> is caught and dropped (line 246).
\<close>

definition delete_route :: "delete_env \<Rightarrow> nat \<Rightarrow> nat \<Rightarrow> sys \<Rightarrow> response \<times> sys" where
  "delete_route e reqId uid s =
     (if \<not> get_ok e then (ServerError, s)
      else case select_image reqId uid (db s) of
             None \<Rightarrow> (NotFound, s)
           | Some img \<Rightarrow>
               let s1 = (if unlink_ok e \<and> original_path img \<in> files s
                         then s\<lparr>files := files s - {original_path img}\<rparr>
                         else s)
               in if run_ok e then (Ok, s1\<lparr>db := delete_image reqId (db s1)\<rparr>)
                  else (ServerError, s1))"

text \<open>
  One file of \<^verbatim>\<open>POST /upload\<close>, lines 54 to 67: the file is on disk, its row is
  inserted as \<^verbatim>\<open>processing\<close>, and a run of \<^verbatim>\<open>analyzeImage\<close> is started for the row.
\<close>

definition upload_file :: "nat \<Rightarrow> jsstring \<Rightarrow> jsstring \<Rightarrow> nat \<Rightarrow> sys \<Rightarrow> sys" where
  "upload_file uid originalname path now s =
     (let (lastID, d) = insert_image uid originalname path Processing now (db s)
      in \<lparr>db = d, files = insert path (files s), workers = insert lastID (workers s)\<rparr>)"

text \<open>The \<^verbatim>\<open>GET /\<close> route: the rows of the user.\<close>

definition list_images :: "nat \<Rightarrow> sys \<Rightarrow> image_row list" where
  "list_images uid s = select_by_user uid (db s)"

text \<open>
  The events of the system: a file is uploaded, a started run of \<^verbatim>\<open>analyzeImage\<close>
  comes to its write, a user deletes an image.
\<close>

datatype event =
    Upload nat jsstring jsstring nat
  | Worker nat env
  | Delete delete_env nat nat

fun step :: "sys \<Rightarrow> event \<Rightarrow> sys" where
  "step s (Upload uid originalname path now) = upload_file uid originalname path now s"
| "step s (Worker imageId e) =
     (if imageId \<in> workers s
      then s\<lparr>db := analyzeImage e imageId (db s), workers := workers s - {imageId}\<rparr>
      else s)"
| "step s (Delete e reqId uid) = snd (delete_route e reqId uid s)"

definition run :: "event list \<Rightarrow> sys \<Rightarrow> sys" where
  "run evs s = foldl step s evs"

section \<open>Reference definitions\<close>

text \<open>
  The area of a box as the specification words it: a box that is not exactly four
  numbers has the area \<open>0\<close>; otherwise each coordinate is clamped into \<open>[0, 1000]\<close>,
  the width is \<open>max(0, xMax - xMin)\<close>, the height is \<open>max(0, yMax - yMin)\<close>, and the
  area is their product over \<open>1,000,000\<close>.
\<close>

definition clamp1000 :: "jsnum \<Rightarrow> rat" where
  "clamp1000 n =
     (case n of NaN \<Rightarrow> 0 | PosInf \<Rightarrow> 1000 | NegInf \<Rightarrow> 0 | Fin a \<Rightarrow> max 0 (min 1000 a))"



text \<open>
  The same area over the conversions of the four elements of any array of length four,
  where an element that converts to \<open>NaN\<close> counts as \<open>0\<close>.
\<close>

definition area_coerced :: "json option \<Rightarrow> rat" where
  "area_coerced box =
     (case box of
        Some (JArr [b0, b1, b2, b3]) \<Rightarrow>
          let width = max 0 (clamp1000 (ToNumber b3) - clamp1000 (ToNumber b1));
              height = max 0 (clamp1000 (ToNumber b2) - clamp1000 (ToNumber b0))
          in (width * height) / 1000000
      | _ \<Rightarrow> 0)"


text \<open>
  The coverage of a label as the specification words it: the areas of the boxes of the
  items whose label contains the word, whatever the case of its letters, are summed;
  the sum is turned into a percentage, clamped into \<open>[0, 100]\<close> and rounded to the
  nearest integer. The label of an item that has none is the empty string.
\<close>

definition box_of :: "json \<Rightarrow> json option" where
  "box_of it = (case it of JObj ms \<Rightarrow> map_of ms (str ''box_2d'') | _ \<Rightarrow> None)"

definition label_text :: "json \<Rightarrow> jsstring" where
  "label_text it =
     (case it of
        JObj ms \<Rightarrow> (case map_of ms (str ''label'') of Some (JStr s) \<Rightarrow> s | _ \<Rightarrow> [])
      | _ \<Rightarrow> [])"

definition label_matches :: "jsstring \<Rightarrow> json \<Rightarrow> bool" where
  "label_matches word it = includes_str (toLowerCase (label_text it)) word"

definition round_half_up :: "rat \<Rightarrow> rat" where
  "round_half_up x = of_int \<lfloor>x + 1 / 2\<rfloor>"

definition coverage_reference :: "jsstring \<Rightarrow> json list \<Rightarrow> rat" where
  "coverage_reference word items =
     round_half_up (max 0 (min 100 (100 *
       sum_list (map (\<lambda>it. area_coerced (box_of it)) (filter (label_matches word) items)))))"

text \<open>
  The items on which the label test of the worker does not throw: every value but
  \<^verbatim>\<open>null\<close>, provided that its label, if it has one, is a string or counts as false.
\<close>

fun item_ok :: "json \<Rightarrow> bool" where
  "item_ok JNull = False"
| "item_ok (JObj ms) =
     (case map_of ms (str ''label'') of
        Some (JStr s) \<Rightarrow> True
      | l \<Rightarrow> \<not> truthy l)"
| "item_ok v = True"

text \<open>A field of the result of the normalizer; \<open>None\<close> when there is no result or no such field.\<close>

definition result_field :: "jsstring \<Rightarrow> error + json \<Rightarrow> json option" where
  "result_field k r = (case r of Inr (JObj ms) \<Rightarrow> map_of ms k | _ \<Rightarrow> None)"

text \<open>A number between \<open>0\<close> and \<open>100\<close>.\<close>

fun percentage :: "json option \<Rightarrow> bool" where
  "percentage (Some (JNum (Fin q))) = (0 \<le> q \<and> q \<le> 100)"
| "percentage v = False"

fun is_array :: "json option \<Rightarrow> bool" where
  "is_array (Some (JArr xs)) = True"
| "is_array v = False"


text \<open>
  The fields of the result, from the fields of the payload and its items: a coverage
  that is missing, \<^verbatim>\<open>null\<close> or \<open>NaN\<close> is the coverage of its label, a total area that
  is missing or \<^verbatim>\<open>null\<close> is \<open>100\<close>, and every other field is the payload's.
\<close>

definition needs_coverage :: "json option \<Rightarrow> bool" where
  "needs_coverage v = (nullish v \<or> Number_isNaN v)"

definition backfilled :: "json list \<Rightarrow> (jsstring \<rightharpoonup> json) \<Rightarrow> (jsstring \<rightharpoonup> json)" where
  "backfilled its m =
     (\<lambda>k. if k = str ''weedCoverage'' \<and> needs_coverage (m k)
            then Some (JNum (Fin (coverage_reference (str ''weed'') its)))
          else if k = str ''healthyCropCoverage'' \<and> needs_coverage (m k)
            then Some (JNum (Fin (coverage_reference (str ''crop'') its)))
          else if k = str ''totalArea'' \<and> nullish (m k)
            then Some (JNum (Fin 100))
          else m k)"

text \<open>
  A number of the program stands for an exact sum: it is the sum, or the sum has
  reached the bound of the doubles and the number is the infinity.
\<close>

definition approx :: "jsnum \<Rightarrow> rat \<Rightarrow> bool" where
  "approx r q = (0 \<le> q \<and> (if q < overflow_bound then r = Fin q else r = PosInf))"

text \<open>The states of the parser in which the outermost value is an object.\<close>

fun is_object :: "json \<Rightarrow> bool" where
  "is_object (JObj ms) = True"
| "is_object v = False"

fun in_object :: "frame list \<Rightarrow> bool" where
  "in_object [] = False"
| "in_object [InObj ms k] = True"
| "in_object [InArr es] = False"
| "in_object (f # st) = in_object st"

fun outer_object :: "pstate \<Rightarrow> bool" where
  "outer_object (PValue st) = in_object st"
| "outer_object (PArr0 st) = in_object st"
| "outer_object (PArrN es st) = in_object st"
| "outer_object (PObj0 st) = (st = [] \<or> in_object st)"
| "outer_object (PObjK ms st) = (st = [] \<or> in_object st)"
| "outer_object (PObjC ms k st) = (st = [] \<or> in_object st)"
| "outer_object (PObjN ms st) = (st = [] \<or> in_object st)"
| "outer_object (PDone v) = is_object v"

text \<open>The result of the normalizer on a text without a JSON span.\<close>

definition fallback_result :: json where
  "fallback_result =
     JObj [(str ''items'', JArr []), (str ''weedCoverage'', JNum (Fin 0)),
           (str ''healthyCropCoverage'', JNum (Fin 100)),
           (str ''recommendations'', JArr [JStr (str ''Unable to analyze image details'')]),
           (str ''totalArea'', JNum (Fin 100))]"

text \<open>
  The invariant of the records: the analysis is there exactly when the record is
  completed; and the row of a run that has not written yet is still as it was inserted.
\<close>

definition analysis_iff_completed :: "image_row \<Rightarrow> bool" where
  "analysis_iff_completed r = ((segmentation_data r \<noteq> None) = (status r = Completed))"

definition awaiting :: "nat set \<Rightarrow> image_row \<Rightarrow> bool" where
  "awaiting ws r =
     (if image_id r \<in> ws
      then status r = Processing \<and> segmentation_data r = None \<and> analysis_result r = None
      else True)"

definition sys_inv :: "sys \<Rightarrow> bool" where
  "sys_inv s =
     ((\<forall>r \<in> set (images (db s)).
         analysis_iff_completed r \<and> awaiting (workers s) r \<and> image_id r \<le> last_id (db s))
      \<and> (\<forall>w \<in> workers s. w \<le> last_id (db s)))"

text \<open>An identifier that was given out and that no row has.\<close>

definition gone :: "nat \<Rightarrow> sys \<Rightarrow> bool" where
  "gone i s =
     (i \<le> last_id (db s)
      \<and> (\<forall>j \<in> set (map image_id (images (db s))). j \<noteq> i \<and> j \<le> last_id (db s)))"

section \<open>Properties of the area of a box\<close>

lemma floor_rat_numeral [simp]:
  "\<lfloor>(numeral a :: rat) / numeral b\<rfloor> = numeral a div numeral b"
  using floor_divide_of_int_eq [of "numeral a" "numeral b", where ?'a = rat] by simp

lemma floor_rat_one_numeral [simp]:
  "\<lfloor>(1 :: rat) / numeral b\<rfloor> = 1 div numeral b"
  using floor_divide_of_int_eq [of 1 "numeral b", where ?'a = rat] by simp

lemma overflow_bound_big: "10000000 < overflow_bound"
  by (simp add: overflow_bound_def)

lemma fin_small: "\<bar>q\<bar> \<le> 10000000 \<Longrightarrow> fin q = Fin q"
  using overflow_bound_big by (auto simp: fin_def abs_le_iff)

lemma clamp1000_bounds: "0 \<le> clamp1000 n \<and> clamp1000 n \<le> 1000"
  by (cases n) (auto simp: clamp1000_def)


lemma coord_eq: "coord b = Fin (clamp1000 (ToNumber b))"
  by (cases "ToNumber b") (auto simp: coord_def or_zero_def clamp1000_def)

lemma js_sub_Fin: "\<bar>a\<bar> \<le> 1000 \<Longrightarrow> \<bar>b\<bar> \<le> 1000 \<Longrightarrow> js_sub (Fin a) (Fin b) = Fin (a - b)"
  by (simp add: js_sub_def fin_small)

lemma area_core:
  assumes "0 \<le> w" "w \<le> 1000" "0 \<le> h" "h \<le> 1000"
  shows "js_div (js_mul (Fin w) (Fin h)) (js_mul (Fin 1000) (Fin 1000)) = Fin (w * h / 1000000)"
proof -
  have wh: "w * h \<le> 1000 * 1000" using assms by (intro mult_mono) auto
  have wh0: "0 \<le> w * h" using assms by simp
  have 1: "js_mul (Fin w) (Fin h) = Fin (w * h)"
    using wh wh0 by (simp add: fin_small)
  have 2: "js_mul (Fin 1000) (Fin 1000) = Fin 1000000"
    by (simp add: fin_small)
  have "\<bar>w * h / 1000000\<bar> \<le> 10000000" using wh wh0 by simp
  then show ?thesis using 1 2 by (simp add: fin_small)
qed

lemma areaOf_four:
  "areaOf (Some (JArr [b0, b1, b2, b3])) =
     Fin (max 0 (clamp1000 (ToNumber b3) - clamp1000 (ToNumber b1))
          * max 0 (clamp1000 (ToNumber b2) - clamp1000 (ToNumber b0)) / 1000000)"
proof -
  let ?c = "\<lambda>b. clamp1000 (ToNumber b)"
  have b: "\<And>b. 0 \<le> ?c b \<and> ?c b \<le> 1000" using clamp1000_bounds by simp
  have s1: "js_sub (coord b3) (coord b1) = Fin (?c b3 - ?c b1)"
    using b [of b3] b [of b1] by (simp add: coord_eq js_sub_Fin)
  have s2: "js_sub (coord b2) (coord b0) = Fin (?c b2 - ?c b0)"
    using b [of b2] b [of b0] by (simp add: coord_eq js_sub_Fin)
  have w: "0 \<le> max 0 (?c b3 - ?c b1) \<and> max 0 (?c b3 - ?c b1) \<le> 1000"
    using b [of b3] b [of b1] by auto
  have h: "0 \<le> max 0 (?c b2 - ?c b0) \<and> max 0 (?c b2 - ?c b0) \<le> 1000"
    using b [of b2] b [of b0] by auto
  have "areaOf (Some (JArr [b0, b1, b2, b3])) =
          js_div (js_mul (Fin (max 0 (?c b3 - ?c b1))) (Fin (max 0 (?c b2 - ?c b0))))
                 (js_mul (Fin 1000) (Fin 1000))"
    by (simp add: areaOf_def Let_def s1 s2 del: js_mul.simps js_div.simps)
  also have "\<dots> = Fin (max 0 (?c b3 - ?c b1) * max 0 (?c b2 - ?c b0) / 1000000)"
    using w h by (intro area_core) auto
  finally show ?thesis .
qed

lemma areaOf_coerced: "areaOf box = Fin (area_coerced box)"
proof (cases "\<exists>b0 b1 b2 b3. box = Some (JArr [b0, b1, b2, b3])")
  case True
  then show ?thesis by (auto simp: areaOf_four area_coerced_def Let_def)
next
  case False
  then show ?thesis
    by (auto simp: areaOf_def area_coerced_def split: option.splits json.splits list.splits)
qed

lemma area_coerced_bounds: "0 \<le> area_coerced box \<and> area_coerced box \<le> 1"
proof (cases "\<exists>b0 b1 b2 b3. box = Some (JArr [b0, b1, b2, b3])")
  case True
  then obtain b0 b1 b2 b3 where box: "box = Some (JArr [b0, b1, b2, b3])" by blast
  let ?c = "\<lambda>b. clamp1000 (ToNumber b)"
  have b: "\<And>b. 0 \<le> ?c b \<and> ?c b \<le> 1000" using clamp1000_bounds by simp
  have w: "0 \<le> max 0 (?c b3 - ?c b1) \<and> max 0 (?c b3 - ?c b1) \<le> 1000"
    using b [of b3] b [of b1] by auto
  have h: "0 \<le> max 0 (?c b2 - ?c b0) \<and> max 0 (?c b2 - ?c b0) \<le> 1000"
    using b [of b2] b [of b0] by auto
  have "max 0 (?c b3 - ?c b1) * max 0 (?c b2 - ?c b0) \<le> 1000 * 1000"
    using w h by (intro mult_mono) auto
  moreover have "0 \<le> max 0 (?c b3 - ?c b1) * max 0 (?c b2 - ?c b0)"
    using w h by simp
  ultimately show ?thesis by (simp add: box area_coerced_def Let_def)
next
  case False
  then show ?thesis
    by (auto simp: area_coerced_def split: option.splits json.splits list.splits)
qed






section \<open>Properties of the parser\<close>

lemma in_object_Cons: "st \<noteq> [] \<Longrightarrow> in_object (f # st) = in_object st"
  by (cases st; cases f) auto

lemma deliver_in_object: "in_object st \<Longrightarrow> outer_object (deliver v st)"
proof (cases st)
  case Nil
  then show "in_object st \<Longrightarrow> ?thesis" by simp
next
  case (Cons f st')
  assume "in_object st"
  with Cons show ?thesis
    by (cases f; cases st') (auto simp: in_object_Cons)
qed

lemma deliver_object: "st = [] \<or> in_object st \<Longrightarrow> outer_object (deliver (JObj ms) st)"
  using deliver_in_object by (cases st) auto

lemma pvalue_outer: "in_object st \<Longrightarrow> pvalue st t = Some s' \<Longrightarrow> outer_object s'"
  by (cases t) (auto simp: deliver_in_object)

lemma pstep_outer: "outer_object s \<Longrightarrow> pstep s t = Some s' \<Longrightarrow> outer_object s'"
proof (cases s)
  case (PValue st)
  then show "outer_object s \<Longrightarrow> pstep s t = Some s' \<Longrightarrow> ?thesis"
    using pvalue_outer by auto
next
  case (PArr0 st)
  assume a: "outer_object s" "pstep s t = Some s'"
  show ?thesis
  proof (cases "t = RBRACK")
    case True
    with a PArr0 show ?thesis by (auto simp: deliver_in_object)
  next
    case False
    with a PArr0 have "pvalue (InArr [] # st) t = Some s'" by (cases t) auto
    moreover have "in_object (InArr [] # st)" using a PArr0 by (cases st) auto
    ultimately show ?thesis using pvalue_outer by blast
  qed
next
  case (PArrN es st)
  assume a: "outer_object s" "pstep s t = Some s'"
  with PArrN show ?thesis
    by (cases t; cases st) (auto simp: deliver_in_object)
next
  case (PObj0 st)
  assume a: "outer_object s" "pstep s t = Some s'"
  with PObj0 show ?thesis
    using deliver_object [of st "[]"] by (cases t) auto
next
  case (PObjK ms st)
  assume a: "outer_object s" "pstep s t = Some s'"
  with PObjK show ?thesis by (cases t) auto
next
  case (PObjC ms k st)
  assume a: "outer_object s" "pstep s t = Some s'"
  with PObjC show ?thesis by (cases t; cases st) auto
next
  case (PObjN ms st)
  assume a: "outer_object s" "pstep s t = Some s'"
  with PObjN show ?thesis
    using deliver_object [of st ms] by (cases t) auto
next
  case (PDone v)
  assume a: "outer_object s" "pstep s t = Some s'"
  with PDone show ?thesis by simp
qed

lemma prun_outer: "outer_object s \<Longrightarrow> prun s ts = Some s' \<Longrightarrow> outer_object s'"
proof (induction ts arbitrary: s)
  case Nil
  then show ?case by simp
next
  case (Cons t ts)
  then show ?case by (auto split: option.splits dest: pstep_outer)
qed

lemma JSON_parse_brace:
  assumes "JSON_parse (cu CHR ''{'' # cs) = Inr v"
  shows "is_object v"
proof -
  have l: "lex (cu CHR ''{'' # cs) = map_option (Cons LBRACE) (lex cs)"
    by (simp add: is_json_ws_def cu_def)
  from assms obtain ts where ts: "lex cs = Some ts"
    by (auto simp: JSON_parse_def l simp del: lex.simps split: option.splits)
  from assms have "prun (PObj0 []) ts = Some (PDone v)"
    by (auto simp: JSON_parse_def l ts simp del: lex.simps split: option.splits pstate.splits)
  then have "outer_object (PDone v)" using prun_outer [of "PObj0 []" ts "PDone v"] by simp
  then show ?thesis by simp
qed

lemma jsonMatch_brace: "jsonMatch text = Some m \<Longrightarrow> \<exists>cs. m = cu CHR ''{'' # cs"
proof -
  assume a: "jsonMatch text = Some m"
  then obtain b rest where d: "dropWhile (\<lambda>c. c \<noteq> cu CHR ''{'') text = b # rest"
    by (auto simp: jsonMatch_def split: list.splits)
  then have "b = cu CHR ''{''" using hd_dropWhile [of "\<lambda>c. c \<noteq> cu CHR ''{''" "text"] by auto
  with a d show ?thesis by (auto simp: jsonMatch_def split: if_splits)
qed

lemma parse_response_object: "parse_response text = Inr v \<Longrightarrow> is_object v"
  using JSON_parse_brace jsonMatch_brace
  by (fastforce simp: parse_response_def fallback_def split: option.splits)

section \<open>Properties of the normalizer\<close>

lemma str_eq_iff [simp]: "str a = str b \<longleftrightarrow> a = b"
proof -
  have "inj cu" by (simp add: inj_def cu_def)
  then show ?thesis unfolding str_def by (simp add: inj_map_eq_map)
qed

lemma map_of_insert_fresh:
  "k \<notin> fst ` set xs \<Longrightarrow> map_of (xs @ (k, v) # ys) = (map_of (xs @ ys))(k \<mapsto> v)"
  by (induction xs) (auto simp: fun_upd_twist)

lemma map_of_replace_apply:
  "map_of (map (\<lambda>kv. if fst kv = k then (k, v) else kv) ms) k' =
     (if k' = k \<and> k \<in> fst ` set ms then Some v else map_of ms k')"
proof (induction ms)
  case Nil
  then show ?case by simp
next
  case (Cons kv ms)
  then show ?case by (cases kv) (force simp: image_iff)
qed

lemma map_of_replace:
  "k \<in> fst ` set ms \<Longrightarrow>
   map_of (map (\<lambda>kv. if fst kv = k then (k, v) else kv) ms) = (map_of ms)(k \<mapsto> v)"
  by (rule ext) (simp add: map_of_replace_apply)

lemma map_of_put: "map_of (put k v ms) = (map_of ms)(k \<mapsto> v)"
proof (cases "k \<in> fst ` set ms")
  case True
  then show ?thesis by (simp add: put_def map_of_replace)
next
  case False
  show ?thesis
  proof (cases "array_index k")
    case None
    with False show ?thesis
      using map_of_insert_fresh [of k ms v "[]"] by (simp add: put_def)
  next
    case (Some i)
    have "k \<notin> fst ` set (takeWhile (comes_before i) ms)"
      using False by (auto dest: set_takeWhileD)
    then have "map_of (takeWhile (comes_before i) ms @ (k, v) # dropWhile (comes_before i) ms)
               = (map_of (takeWhile (comes_before i) ms @ dropWhile (comes_before i) ms))(k \<mapsto> v)"
      by (rule map_of_insert_fresh)
    with False Some show ?thesis by (simp add: put_def)
  qed
qed

lemma label_includes_ok: "item_ok it \<Longrightarrow> label_includes word it = Inr (label_matches word it)"
  by (cases it)
     (auto simp: label_includes_def label_matches_def label_text_def
        split: option.splits json.splits)

lemma label_includes_bad: "\<not> item_ok it \<Longrightarrow> label_includes word it = Inl TypeError"
  by (cases it)
     (auto simp: label_includes_def split: option.splits json.splits)

lemma filter_items_ok:
  "list_all item_ok its \<Longrightarrow> filter_items word its = Inr (filter (label_matches word) its)"
  by (induction its) (auto simp: label_includes_ok)

lemma filter_items_bad:
  "\<not> list_all item_ok its \<Longrightarrow> filter_items word its = Inl TypeError"
proof (induction its)
  case Nil
  then show ?case by simp
next
  case (Cons it its)
  show ?case
  proof (cases "item_ok it")
    case True
    with Cons show ?thesis by (auto simp: label_includes_ok)
  next
    case False
    then show ?thesis by (simp add: label_includes_bad)
  qed
qed

lemma approx_add:
  assumes "approx r q" "0 \<le> a"
  shows "approx (js_add r (Fin a)) (q + a)"
proof (cases "q < overflow_bound")
  case True
  then have r: "r = Fin q" and q: "0 \<le> q" using assms by (auto simp: approx_def)
  have "- overflow_bound < q + a" using q assms(2) overflow_bound_big by linarith
  then show ?thesis using r q assms(2) by (auto simp: approx_def fin_def)
next
  case False
  then have r: "r = PosInf" and q: "0 \<le> q" using assms by (auto simp: approx_def)
  then show ?thesis using False assms(2) by (auto simp: approx_def)
qed

lemma get_prop_box: "it \<noteq> JNull \<Longrightarrow> get_prop it (str ''box_2d'') = Inr (box_of it)"
  by (cases it) (auto simp: box_of_def)

lemma sum_areas_approx:
  "list_all (\<lambda>it. it \<noteq> JNull) xs \<Longrightarrow> approx acc q \<Longrightarrow>
   \<exists>r. sum_areas acc xs = Inr r
       \<and> approx r (q + sum_list (map (\<lambda>it. area_coerced (box_of it)) xs))"
proof (induction xs arbitrary: acc q)
  case Nil
  then show ?case by simp
next
  case (Cons it xs)
  have a: "approx (js_add acc (areaOf (box_of it))) (q + area_coerced (box_of it))"
    using Cons.prems(2) area_coerced_bounds [of "box_of it"]
    by (simp add: areaOf_coerced approx_add)
  from Cons.prems(1) have "list_all (\<lambda>it. it \<noteq> JNull) xs" and "it \<noteq> JNull" by auto
  from Cons.IH [OF this(1) a] this(2) show ?case
    by (auto simp: get_prop_box add.assoc)
qed

lemma percent_approx:
  assumes "approx r q"
  shows "percent r = Fin (round_half_up (max 0 (min 100 (100 * q))))"
proof (cases "q < overflow_bound")
  case True
  then have r: "r = Fin q" and q: "0 \<le> q" using assms by (auto simp: approx_def)
  show ?thesis
  proof (cases "q * 100 < overflow_bound")
    case True
    then have "fin (q * 100) = Fin (q * 100)" using q overflow_bound_big by (auto simp: fin_def)
    then show ?thesis by (simp add: percent_def r round_half_up_def mult.commute)
  next
    case False
    then have "fin (q * 100) = PosInf" by (auto simp: fin_def)
    moreover have "100 \<le> 100 * q" using False overflow_bound_big by linarith
    ultimately show ?thesis by (simp add: percent_def r round_half_up_def mult.commute)
  qed
next
  case False
  then have r: "r = PosInf" using assms by (auto simp: approx_def)
  have "100 \<le> 100 * q" using False overflow_bound_big by linarith
  then show ?thesis by (simp add: percent_def r round_half_up_def)
qed

lemma item_ok_not_null: "item_ok it \<Longrightarrow> it \<noteq> JNull"
  by auto

lemma label_area_ok:
  assumes "list_all item_ok its"
  shows "\<exists>r. label_area word its = Inr r \<and> percent r = Fin (coverage_reference word its)"
proof -
  have "list_all (\<lambda>it. it \<noteq> JNull) (filter (label_matches word) its)"
    using assms by (auto simp: list_all_iff)
  moreover have "approx (Fin 0) 0" using overflow_bound_big by (simp add: approx_def)
  ultimately obtain r where "sum_areas (Fin 0) (filter (label_matches word) its) = Inr r"
    and "approx r (0 + sum_list (map (\<lambda>it. area_coerced (box_of it)) (filter (label_matches word) its)))"
    using sum_areas_approx by blast
  then show ?thesis
    using assms by (simp add: label_area_def filter_items_ok percent_approx coverage_reference_def)
qed

lemma label_area_bad: "\<not> list_all item_ok its \<Longrightarrow> label_area word its = Inl TypeError"
  by (simp add: label_area_def filter_items_bad)

lemma derive_coverage_ok:
  assumes "map_of ms (str ''items'') = Some (JArr its)" and "list_all item_ok its"
  shows "\<exists>ms'. derive_coverage (JObj ms) = Inr (JObj ms') \<and> map_of ms' = backfilled its (map_of ms)"
proof -
  obtain rw where rw: "label_area (str ''weed'') its = Inr rw"
      "percent rw = Fin (coverage_reference (str ''weed'') its)"
    using label_area_ok [OF assms(2)] by blast
  obtain rc where rc: "label_area (str ''crop'') its = Inr rc"
      "percent rc = Fin (coverage_reference (str ''crop'') its)"
    using label_area_ok [OF assms(2)] by blast
  define ms1 where "ms1 = (if needs_coverage (map_of ms (str ''weedCoverage''))
      then put (str ''weedCoverage'') (JNum (percent rw)) ms else ms)"
  define ms2 where "ms2 = (if needs_coverage (map_of ms1 (str ''healthyCropCoverage''))
      then put (str ''healthyCropCoverage'') (JNum (percent rc)) ms1 else ms1)"
  define ms3 where "ms3 = (if nullish (map_of ms2 (str ''totalArea''))
      then put (str ''totalArea'') (JNum (Fin 100)) ms2 else ms2)"
  have d: "derive_coverage (JObj ms) = Inr (JObj ms3)"
    using assms(1) rw(1) rc(1)
    by (simp add: derive_coverage_def Let_def ms1_def ms2_def ms3_def needs_coverage_def)
  have m1: "map_of ms1 = (\<lambda>k. if k = str ''weedCoverage'' \<and> needs_coverage (map_of ms k)
      then Some (JNum (Fin (coverage_reference (str ''weed'') its))) else map_of ms k)"
    by (rule ext) (auto simp: ms1_def map_of_put rw(2))
  have m2: "map_of ms2 = (\<lambda>k. if k = str ''healthyCropCoverage'' \<and> needs_coverage (map_of ms k)
      then Some (JNum (Fin (coverage_reference (str ''crop'') its))) else map_of ms1 k)"
    by (rule ext) (auto simp: ms2_def map_of_put rc(2) m1)
  have m3: "map_of ms3 = (\<lambda>k. if k = str ''totalArea'' \<and> nullish (map_of ms k)
      then Some (JNum (Fin 100)) else map_of ms2 k)"
    by (rule ext) (auto simp: ms3_def map_of_put m2 m1)
  have "map_of ms3 = backfilled its (map_of ms)"
    by (rule ext) (auto simp: m3 m2 m1 backfilled_def)
  with d show ?thesis by blast
qed

lemma derive_coverage_bad:
  assumes "map_of ms (str ''items'') = Some (JArr its)" and "\<not> list_all item_ok its"
  shows "derive_coverage (JObj ms) = Inl TypeError"
  using assms by (simp add: derive_coverage_def label_area_bad)

lemma derive_coverage_no_items:
  assumes "\<forall>its. map_of ms (str ''items'') \<noteq> Some (JArr its)"
  shows "derive_coverage (JObj ms) = Inr (JObj ms)"
  using assms by (auto simp: derive_coverage_def split: option.splits json.splits)

text \<open>
  The equations that evaluate the parser, the normalizer, the serializer, the worker
  and the routes on a concrete input.
\<close>

lemmas parse_eval = str_def cu_def QUOTE_def BACKSLASH_def is_json_ws_def is_digit_def
  digits_val_def hex_val_def escape_def scan_exponent_def scan_fraction_def number_value_def
  lex_number_def Let_def fin_def overflow_bound_def array_index_def comes_before_def put_def
  JSON_parse_def

lemmas normalize_eval = normalize_def parse_response_def jsonMatch_def fallback_def
  derive_coverage_def label_area_def label_includes_def toLowerCase_def percent_def
  areaOf_def coord_def or_zero_def js_sub_def

lemma replicate_numeral: "replicate (numeral k) x = x # replicate (pred_numeral k) x"
  by (simp add: numeral_eq_Suc)

lemmas stringify_eval = replicate_numeral quote_string_def unicode_escape_def hex_char_def
  is_lead_def is_trail_def positive_to_string_def digit_chars_def dec_digits.simps
  frac_len.simps

lemmas route_eval = run_def init_def upload_file_def insert_image_def delete_route_def
  delete_image_def select_image_def list_images_def select_by_user_def

lemma coverage_reference_bounds:
  "0 \<le> coverage_reference word its \<and> coverage_reference word its \<le> 100"
proof -
  define x where "x = max 0 (min 100 (100 *
       sum_list (map (\<lambda>it. area_coerced (box_of it)) (filter (label_matches word) its))))"
  have x: "0 \<le> x" "x \<le> 100" by (auto simp: x_def)
  have "\<lfloor>x + 1 / 2\<rfloor> \<le> 100" using x(2) by (simp add: floor_le_iff)
  moreover have "0 \<le> \<lfloor>x + 1 / 2\<rfloor>" using x(1) by simp
  ultimately show ?thesis
    unfolding coverage_reference_def round_half_up_def x_def [symmetric]
    by (metis of_int_0_le_iff of_int_le_iff of_int_numeral)
qed

lemma is_object_iff: "is_object v \<longleftrightarrow> (\<exists>ms. v = JObj ms)"
  by (cases v) auto

lemma derive_coverage_field:
  assumes "derive_coverage (JObj ms) = Inr r"
  shows "\<exists>ms'. r = JObj ms' \<and>
           (\<forall>its. map_of ms (str ''items'') = Some (JArr its) \<longrightarrow> map_of ms' = backfilled its (map_of ms)) \<and>
           (\<not> is_array (map_of ms (str ''items'')) \<longrightarrow> ms' = ms)"
proof (cases "\<exists>its. map_of ms (str ''items'') = Some (JArr its)")
  case True
  then obtain its where its: "map_of ms (str ''items'') = Some (JArr its)" by blast
  have ok: "list_all item_ok its"
    using assms derive_coverage_bad [OF its] by fastforce
  from derive_coverage_ok [OF its ok] assms its show ?thesis by auto
next
  case False
  then have "derive_coverage (JObj ms) = Inr (JObj ms)"
    by (simp add: derive_coverage_no_items)
  with assms False show ?thesis by auto
qed

lemma derive_coverage_fixed:
  assumes "map_of ms (str ''items'') = Some (JArr its)" and "list_all item_ok its"
    and "\<not> needs_coverage (map_of ms (str ''weedCoverage''))"
    and "\<not> needs_coverage (map_of ms (str ''healthyCropCoverage''))"
    and "\<not> nullish (map_of ms (str ''totalArea''))"
  shows "derive_coverage (JObj ms) = Inr (JObj ms)"
proof -
  obtain rw where rw: "label_area (str ''weed'') its = Inr rw"
    using label_area_ok [OF assms(2)] by blast
  obtain rc where rc: "label_area (str ''crop'') its = Inr rc"
    using label_area_ok [OF assms(2)] by blast
  show ?thesis
    using assms rw rc by (simp add: derive_coverage_def needs_coverage_def)
qed

lemma derive_coverage_idempotent:
  assumes "derive_coverage (JObj ms) = Inr v"
  shows "derive_coverage v = Inr v"
proof (cases "\<exists>its. map_of ms (str ''items'') = Some (JArr its)")
  case True
  then obtain its where its: "map_of ms (str ''items'') = Some (JArr its)" by blast
  have ok: "list_all item_ok its"
    using assms derive_coverage_bad [OF its] by fastforce
  obtain ms' where v: "v = JObj ms'" and m: "map_of ms' = backfilled its (map_of ms)"
    using derive_coverage_ok [OF its ok] assms by auto
  have "map_of ms' (str ''items'') = Some (JArr its)"
    using its by (simp add: m backfilled_def)
  moreover have "\<not> needs_coverage (map_of ms' (str ''weedCoverage''))"
    by (simp add: m backfilled_def needs_coverage_def)
  moreover have "\<not> needs_coverage (map_of ms' (str ''healthyCropCoverage''))"
    by (simp add: m backfilled_def needs_coverage_def)
  moreover have "\<not> nullish (map_of ms' (str ''totalArea''))"
    by (simp add: m backfilled_def)
  ultimately show ?thesis using ok v by (simp add: derive_coverage_fixed)
next
  case False
  then have d: "derive_coverage (JObj ms) = Inr (JObj ms)"
    by (simp add: derive_coverage_no_items)
  with assms have "v = JObj ms" by simp
  with d show ?thesis by simp
qed

lemma jsonMatch_braces:
  "jsonMatch (cu CHR ''{'' # cs @ [cu CHR ''}'']) = Some (cu CHR ''{'' # cs @ [cu CHR ''}''])"
  by (simp add: jsonMatch_def)

lemma normalize_object:
  assumes "normalize x = Inr v"
  shows "\<exists>ms ms'. parse_response x = Inr (JObj ms) \<and> derive_coverage (JObj ms) = Inr v \<and> v = JObj ms'"
proof -
  from assms obtain p where p: "parse_response x = Inr p" "derive_coverage p = Inr v"
    by (auto simp: normalize_def split: sum.splits)
  then obtain ms where ms: "p = JObj ms"
    using parse_response_object is_object_iff by blast
  with p derive_coverage_field [of ms v] show ?thesis by auto
qed

lemma derive_coverage_fallback: "derive_coverage fallback = Inr fallback_result"
  by (simp add: parse_eval normalize_eval fallback_result_def)

lemma no_span_fallback:
  assumes "jsonMatch text = None"
  shows "normalize text = Inr fallback_result"
  using assms by (simp add: normalize_def parse_response_def derive_coverage_fallback)

lemma no_span_completed:
  assumes "jsonMatch (response_text t) = None"
    and "readFile e = Inr ()" and "generateContent e = Inr t" and "run_result_ok e"
  shows "analyzeImage e imageId d =
           update_result (response_text t) (JSON_stringify fallback_result) Completed imageId d"
  using assms no_span_fallback [OF assms(1)]
  by (simp add: analyzeImage_def analyze_try_def)

lemma unparseable_span_failed:
  assumes "jsonMatch (response_text t) = Some m" and "JSON_parse m = Inl x"
    and "readFile e = Inr ()" and "generateContent e = Inr t" and "run_failed_ok e"
  shows "analyzeImage e imageId d = update_status Failed imageId d"
  using assms
  by (simp add: analyzeImage_def analyze_try_def normalize_def parse_response_def)

lemma weed_patch_scenario:
  \<open>result_field (str ''weedCoverage'')
     (normalize (str ''{"items":[{"label":"Weed patch","box_2d":[100,100,300,300]}]}''))
   = Some (JNum (Fin 4))\<close>
  by (simp add: parse_eval normalize_eval result_field_def floor_eq_iff)

section \<open>The claims about the normalizer\<close>

text \<open>
  C1. A text without a JSON span gives the fallback result and the record is
  completed (\<open>no_span_fallback\<close>, \<open>no_span_completed\<close>). A text whose span is no
  JSON text does not: \<^verbatim>\<open>JSON.parse\<close> throws inside the \<^verbatim>\<open>try\<close> block, nothing
  catches it before the \<^verbatim>\<open>catch\<close> of the worker, and the record is marked failed
  (\<open>unparseable_span_failed\<close>). Here the response is an object with a comma before its
  closing brace, the file is read, the model answers and both statements succeed: the
  record goes from processing to failed.
\<close>

theorem unparseable_span_marks_failed:
  \<open>jsonMatch (str ''{"weedCoverage": 10,}'') = Some (str ''{"weedCoverage": 10,}'')
   \<and> JSON_parse (str ''{"weedCoverage": 10,}'') = Inl SyntaxError
   \<and> normalize (str ''{"weedCoverage": 10,}'') = Inl SyntaxError
   \<and> map status (images (db (upload_file 7 (str ''field.jpg'') (str ''uploads/image-1.jpg'') 0 init)))
     = [Processing]
   \<and> map status (images (analyzeImage
         \<lparr>readFile = Inr (), generateContent = Inr (Some (str ''{"weedCoverage": 10,}'')),
          run_result_ok = True, run_failed_ok = True\<rparr> 1
         (db (upload_file 7 (str ''field.jpg'') (str ''uploads/image-1.jpg'') 0 init))))
     = [Failed]\<close>
proof -
  have m: \<open>jsonMatch (str ''{"weedCoverage": 10,}'') = Some (str ''{"weedCoverage": 10,}'')\<close>
    by (simp add: jsonMatch_def str_def cu_def)
  have p: \<open>JSON_parse (str ''{"weedCoverage": 10,}'') = Inl SyntaxError\<close>
    by (simp add: parse_eval)
  have n: \<open>normalize (str ''{"weedCoverage": 10,}'') = Inl SyntaxError\<close>
    by (simp add: normalize_def parse_response_def m p)
  have r: \<open>response_text (Some (str ''{"weedCoverage": 10,}'')) = str ''{"weedCoverage": 10,}''\<close>
    by (simp add: response_text_def)
  show ?thesis
    using m p n
    by (simp add: analyzeImage_def analyze_try_def r update_status_def route_eval
          del: str_eq_iff)
qed




text \<open>
  C4, as the code has it. Each coverage field of a result is the value the parsed
  payload had for it, unchanged, or a number in \<open>[0, 100]\<close>.
\<close>

theorem coverage_kept_or_percentage:
  assumes "normalize text = Inr r"
  shows "\<exists>ms ms'. parse_response text = Inr (JObj ms) \<and> r = JObj ms'
           \<and> (map_of ms' (str ''weedCoverage'') = map_of ms (str ''weedCoverage'')
               \<or> percentage (map_of ms' (str ''weedCoverage'')))
           \<and> (map_of ms' (str ''healthyCropCoverage'') = map_of ms (str ''healthyCropCoverage'')
               \<or> percentage (map_of ms' (str ''healthyCropCoverage'')))"
proof -
  from assms obtain v where v: "parse_response text = Inr v" "derive_coverage v = Inr r"
    by (auto simp: normalize_def split: sum.splits)
  then obtain ms where ms: "v = JObj ms"
    using parse_response_object is_object_iff by blast
  obtain ms' where r: "r = JObj ms'"
    and b: "\<forall>its. map_of ms (str ''items'') = Some (JArr its) \<longrightarrow> map_of ms' = backfilled its (map_of ms)"
    and n: "\<not> is_array (map_of ms (str ''items'')) \<longrightarrow> ms' = ms"
    using derive_coverage_field v(2) ms by blast
  have "(map_of ms' (str ''weedCoverage'') = map_of ms (str ''weedCoverage'')
               \<or> percentage (map_of ms' (str ''weedCoverage'')))
           \<and> (map_of ms' (str ''healthyCropCoverage'') = map_of ms (str ''healthyCropCoverage'')
               \<or> percentage (map_of ms' (str ''healthyCropCoverage'')))"
  proof (cases "\<exists>its. map_of ms (str ''items'') = Some (JArr its)")
    case True
    then obtain its where "map_of ms (str ''items'') = Some (JArr its)" by blast
    with b have "map_of ms' = backfilled its (map_of ms)" by blast
    then show ?thesis
      using coverage_reference_bounds [of "str ''weed''" its]
        coverage_reference_bounds [of "str ''crop''" its]
      by (simp add: backfilled_def)
  next
    case False
    then have "\<not> is_array (map_of ms (str ''items''))"
      by (cases "map_of ms (str ''items'')" rule: is_array.cases) auto
    with n show ?thesis by simp
  qed
  with v(1) ms r show ?thesis by blast
qed

text \<open>
  A payload with a weed coverage of \<open>500\<close> and no crop coverage: the first is kept and
  the second is backfilled within the range.
\<close>

theorem coverage_kept_or_percentage_witness:
  \<open>\<exists>ms ms'. parse_response (str ''{"weedCoverage":500,"items":[]}'') = Inr (JObj ms)
      \<and> normalize (str ''{"weedCoverage":500,"items":[]}'') = Inr (JObj ms')
      \<and> map_of ms' (str ''weedCoverage'') = map_of ms (str ''weedCoverage'')
      \<and> map_of ms' (str ''weedCoverage'') = Some (JNum (Fin 500))
      \<and> percentage (map_of ms' (str ''healthyCropCoverage''))\<close>
proof -
  have n: \<open>normalize (str ''{"weedCoverage":500,"items":[]}'') =
      Inr (JObj [(str ''weedCoverage'', JNum (Fin 500)), (str ''items'', JArr []),
                 (str ''healthyCropCoverage'', JNum (Fin 0)), (str ''totalArea'', JNum (Fin 100))])\<close>
    by (simp add: parse_eval normalize_eval)
  have p: \<open>parse_response (str ''{"weedCoverage":500,"items":[]}'') =
      Inr (JObj [(str ''weedCoverage'', JNum (Fin 500)), (str ''items'', JArr [])])\<close>
    by (simp add: parse_eval normalize_eval)
  from coverage_kept_or_percentage [OF n] show ?thesis
    unfolding n p by simp
qed

text \<open>
  C4 as stated fails: a coverage that the payload gives is not clamped.
\<close>

theorem coverage_percentage_counterexample:
  \<open>normalize (str ''{"weedCoverage":500}'') = Inr (JObj [(str ''weedCoverage'', JNum (Fin 500))])
   \<and> \<not> percentage (result_field (str ''weedCoverage'') (normalize (str ''{"weedCoverage":500}'')))\<close>
proof -
  have n: \<open>normalize (str ''{"weedCoverage":500}'') = Inr (JObj [(str ''weedCoverage'', JNum (Fin 500))])\<close>
    by (simp add: parse_eval normalize_eval)
  show ?thesis unfolding n by (simp add: result_field_def)
qed




text \<open>
  C6, as the code has it. The normalizer gives \<^verbatim>\<open>items\<close> and
  \<^verbatim>\<open>recommendations\<close> no default: the result has what the payload has, also when the
  field is absent or not an array. The total area is \<open>100\<close> when it is missing or
  \<^verbatim>\<open>null\<close> and \<^verbatim>\<open>items\<close> is an array, and the payload's otherwise.
\<close>

theorem fields_not_defaulted:
  assumes "derive_coverage (JObj ms) = Inr r"
  shows "result_field (str ''items'') (Inr r) = map_of ms (str ''items'')
       \<and> result_field (str ''recommendations'') (Inr r) = map_of ms (str ''recommendations'')
       \<and> result_field (str ''totalArea'') (Inr r) =
           (if is_array (map_of ms (str ''items'')) \<and> nullish (map_of ms (str ''totalArea''))
            then Some (JNum (Fin 100)) else map_of ms (str ''totalArea''))"
proof -
  obtain ms' where r: "r = JObj ms'"
    and b: "\<forall>its. map_of ms (str ''items'') = Some (JArr its) \<longrightarrow> map_of ms' = backfilled its (map_of ms)"
    and n: "\<not> is_array (map_of ms (str ''items'')) \<longrightarrow> ms' = ms"
    using derive_coverage_field [OF assms] by blast
  show ?thesis
  proof (cases "\<exists>its. map_of ms (str ''items'') = Some (JArr its)")
    case True
    then obtain its where its: "map_of ms (str ''items'') = Some (JArr its)" by blast
    with b have "map_of ms' = backfilled its (map_of ms)" by blast
    then show ?thesis using its by (simp add: r result_field_def backfilled_def)
  next
    case False
    then have "\<not> is_array (map_of ms (str ''items''))"
      by (cases "map_of ms (str ''items'')" rule: is_array.cases) auto
    with n show ?thesis by (simp add: r result_field_def)
  qed
qed

text \<open>
  A payload with an empty array of items and nothing else.
\<close>

theorem fields_not_defaulted_witness:
  "derive_coverage (JObj [(str ''items'', JArr [])]) =
     Inr (JObj [(str ''items'', JArr []), (str ''weedCoverage'', JNum (Fin 0)),
                (str ''healthyCropCoverage'', JNum (Fin 0)), (str ''totalArea'', JNum (Fin 100))])
   \<and> result_field (str ''recommendations'') (derive_coverage (JObj [(str ''items'', JArr [])])) = None
   \<and> result_field (str ''totalArea'') (derive_coverage (JObj [(str ''items'', JArr [])]))
       = Some (JNum (Fin 100))"
proof -
  have d: "derive_coverage (JObj [(str ''items'', JArr [])]) =
     Inr (JObj [(str ''items'', JArr []), (str ''weedCoverage'', JNum (Fin 0)),
                (str ''healthyCropCoverage'', JNum (Fin 0)), (str ''totalArea'', JNum (Fin 100))])"
    by (simp add: parse_eval normalize_eval)
  from fields_not_defaulted [OF d] show ?thesis unfolding d by simp
qed

text \<open>
  C6 as stated fails: from \<^verbatim>\<open>{"weedCoverage":1}\<close> the result has no items, no
  recommendations and no total area.
\<close>

theorem fields_defaulted_counterexample:
  \<open>normalize (str ''{"weedCoverage":1}'') = Inr (JObj [(str ''weedCoverage'', JNum (Fin 1))])
   \<and> result_field (str ''items'') (normalize (str ''{"weedCoverage":1}'')) \<noteq> Some (JArr [])
   \<and> result_field (str ''recommendations'') (normalize (str ''{"weedCoverage":1}'')) \<noteq> Some (JArr [])
   \<and> result_field (str ''totalArea'') (normalize (str ''{"weedCoverage":1}'')) \<noteq> Some (JNum (Fin 100))\<close>
proof -
  have n: \<open>normalize (str ''{"weedCoverage":1}'') = Inr (JObj [(str ''weedCoverage'', JNum (Fin 1))])\<close>
    by (simp add: parse_eval normalize_eval)
  show ?thesis unfolding n by (simp add: result_field_def)
qed

text \<open>
  C7, as the code has it. When the normalizer gives a result and the serialized
  result parses back to it, normalizing the serialized result gives it again.
\<close>

theorem normalize_idempotent_on_round_trip:
  assumes "normalize x = Inr v" and "JSON_parse (JSON_stringify v) = Inr v"
  shows "normalize (JSON_stringify v) = Inr v"
proof -
  obtain ms ms' where d: "derive_coverage (JObj ms) = Inr v" and v: "v = JObj ms'"
    using normalize_object [OF assms(1)] by blast
  have "jsonMatch (JSON_stringify v) = Some (JSON_stringify v)"
    by (simp add: v jsonMatch_braces)
  then have "parse_response (JSON_stringify v) = Inr v"
    using assms(2) by (simp add: parse_response_def)
  then show ?thesis
    using derive_coverage_idempotent [OF d] by (simp add: normalize_def)
qed

text \<open>
  The scenario of the specification, a payload between two pieces of prose.
\<close>

theorem normalize_idempotent_on_round_trip_witness:
  \<open>normalize (str ''here is the result: {"weedCoverage":30,"healthyCropCoverage":60,"items":[]} thanks'')
     = Inr (JObj [(str ''weedCoverage'', JNum (Fin 30)), (str ''healthyCropCoverage'', JNum (Fin 60)),
                  (str ''items'', JArr []), (str ''totalArea'', JNum (Fin 100))])
   \<and> JSON_stringify (JObj [(str ''weedCoverage'', JNum (Fin 30)), (str ''healthyCropCoverage'', JNum (Fin 60)),
                  (str ''items'', JArr []), (str ''totalArea'', JNum (Fin 100))])
     = str ''{"weedCoverage":30,"healthyCropCoverage":60,"items":[],"totalArea":100}''
   \<and> normalize (str ''{"weedCoverage":30,"healthyCropCoverage":60,"items":[],"totalArea":100}'')
     = Inr (JObj [(str ''weedCoverage'', JNum (Fin 30)), (str ''healthyCropCoverage'', JNum (Fin 60)),
                  (str ''items'', JArr []), (str ''totalArea'', JNum (Fin 100))])\<close>
proof -
  let ?v = "JObj [(str ''weedCoverage'', JNum (Fin 30)), (str ''healthyCropCoverage'', JNum (Fin 60)),
                  (str ''items'', JArr []), (str ''totalArea'', JNum (Fin 100))]"
  have n: \<open>normalize (str ''here is the result: {"weedCoverage":30,"healthyCropCoverage":60,"items":[]} thanks'') = Inr ?v\<close>
    by (simp add: parse_eval normalize_eval)
  have s: \<open>JSON_stringify ?v = str ''{"weedCoverage":30,"healthyCropCoverage":60,"items":[],"totalArea":100}''\<close>
    by (simp add: stringify_eval str_def cu_def QUOTE_def BACKSLASH_def)
  have p: \<open>JSON_parse (str ''{"weedCoverage":30,"healthyCropCoverage":60,"items":[],"totalArea":100}'') = Inr ?v\<close>
    by (simp add: parse_eval)
  from normalize_idempotent_on_round_trip [OF n] p s n show ?thesis by simp
qed

text \<open>
  C7 as stated fails: a numeral beyond the range of the doubles is parsed as
  \<^verbatim>\<open>Infinity\<close>, which is serialized as \<^verbatim>\<open>null\<close>, so the second result is not the
  first.
\<close>

theorem normalize_idempotent_counterexample:
  \<open>normalize (str ''{"weedCoverage":1e400}'') = Inr (JObj [(str ''weedCoverage'', JNum PosInf)])
   \<and> JSON_stringify (JObj [(str ''weedCoverage'', JNum PosInf)]) = str ''{"weedCoverage":null}''
   \<and> normalize (str ''{"weedCoverage":null}'') = Inr (JObj [(str ''weedCoverage'', JNull)])
   \<and> normalize (JSON_stringify (JObj [(str ''weedCoverage'', JNum PosInf)]))
       \<noteq> normalize (str ''{"weedCoverage":1e400}'')\<close>
proof -
  have a: \<open>normalize (str ''{"weedCoverage":1e400}'') = Inr (JObj [(str ''weedCoverage'', JNum PosInf)])\<close>
    by (simp add: parse_eval normalize_eval)
  have b: \<open>JSON_stringify (JObj [(str ''weedCoverage'', JNum PosInf)]) = str ''{"weedCoverage":null}''\<close>
    by (simp add: stringify_eval str_def cu_def QUOTE_def BACKSLASH_def)
  have c: \<open>normalize (str ''{"weedCoverage":null}'') = Inr (JObj [(str ''weedCoverage'', JNull)])\<close>
    by (simp add: parse_eval normalize_eval)
  show ?thesis unfolding a b c by simp
qed

section \<open>The claims about the records\<close>

lemma analyzeImage_cases:
  "analyzeImage e imageId d = d
   \<or> (\<exists>t s. analyzeImage e imageId d = update_result t s Completed imageId d)
   \<or> analyzeImage e imageId d = update_status Failed imageId d"
  by (auto simp: analyzeImage_def analyze_try_def Let_def split: sum.splits)

lemma analyzeImage_ids:
  "map image_id (images (analyzeImage e imageId d)) = map image_id (images d)
   \<and> last_id (analyzeImage e imageId d) = last_id d"
  using analyzeImage_cases [of e imageId d]
  by (auto simp: update_result_def update_status_def)

lemma sys_inv_init: "sys_inv init"
  by (simp add: sys_inv_def init_def)

lemma sys_inv_upload:
  assumes "sys_inv s"
  shows "sys_inv (upload_file uid name path now s)"
proof -
  have old: "\<And>r. r \<in> set (images (db s)) \<Longrightarrow>
      awaiting (insert (Suc (last_id (db s))) (workers s)) r = awaiting (workers s) r"
    using assms by (fastforce simp: sys_inv_def awaiting_def)
  show ?thesis
    using assms old
    by (auto simp: sys_inv_def upload_file_def insert_image_def Let_def
          analysis_iff_completed_def awaiting_def le_SucI)
qed

lemma sys_inv_worker:
  assumes "sys_inv s" and "imageId \<in> workers s"
  shows "sys_inv (s\<lparr>db := analyzeImage e imageId (db s), workers := workers s - {imageId}\<rparr>)"
proof -
  from analyzeImage_cases [of e imageId "db s"]
  consider (same) "analyzeImage e imageId (db s) = db s"
    | (result) t sg where "analyzeImage e imageId (db s) = update_result t sg Completed imageId (db s)"
    | (failed) "analyzeImage e imageId (db s) = update_status Failed imageId (db s)"
    by blast
  then show ?thesis
  proof cases
    case same
    with assms(1) show ?thesis
      by (auto simp: sys_inv_def awaiting_def)
  next
    case result
    with assms(1) show ?thesis
      by (auto simp: sys_inv_def awaiting_def update_result_def analysis_iff_completed_def)
  next
    case failed
    with assms show ?thesis
      by (auto simp: sys_inv_def awaiting_def update_status_def analysis_iff_completed_def)
  qed
qed

lemma sys_inv_delete:
  assumes "sys_inv s"
  shows "sys_inv (snd (delete_route e reqId uid s))"
  using assms
  by (auto simp: sys_inv_def delete_route_def delete_image_def Let_def split: option.splits)

lemma sys_inv_step: "sys_inv s \<Longrightarrow> sys_inv (step s ev)"
  by (cases ev) (auto simp: sys_inv_upload sys_inv_worker sys_inv_delete simp del: snd_conv)

lemma sys_inv_foldl: "sys_inv s \<Longrightarrow> sys_inv (foldl step s evs)"
  by (induction evs arbitrary: s) (auto simp: sys_inv_step)

lemma sys_inv_run: "sys_inv (run evs init)"
  by (simp add: run_def sys_inv_foldl sys_inv_init)

lemma gone_upload: "gone i s \<Longrightarrow> gone i (upload_file uid name path now s)"
  by (auto simp: gone_def upload_file_def insert_image_def Let_def le_SucI)

lemma gone_worker:
  assumes "gone i s"
  shows "gone i (s\<lparr>db := analyzeImage e imageId (db s), workers := ws\<rparr>)"
  using assms analyzeImage_ids [of e imageId "db s"]
  by (simp add: gone_def)

lemma gone_delete: "gone i s \<Longrightarrow> gone i (snd (delete_route e reqId uid s))"
  by (auto simp: gone_def delete_route_def delete_image_def Let_def split: option.splits)

lemma gone_step: "gone i s \<Longrightarrow> gone i (step s ev)"
  by (cases ev) (auto simp: gone_upload gone_worker gone_delete simp del: snd_conv)

lemma gone_foldl: "gone i s \<Longrightarrow> gone i (foldl step s evs)"
  by (induction evs arbitrary: s) (auto simp: gone_step)

lemma gone_not_listed: "gone i s \<Longrightarrow> i \<notin> image_id ` set (list_images uid s)"
  by (auto simp: gone_def list_images_def select_by_user_def)

lemma select_image_Some:
  "select_image i u d = Some img \<Longrightarrow> img \<in> set (images d) \<and> image_id img = i \<and> user_id img = u"
  by (auto simp: select_image_def find_Some_iff)

text \<open>
  C8. In every state the system reaches, every record has its analysis exactly when
  its status is completed, and the record of a run that has not written yet is
  processing without analysis. A run of the worker changes the table by at most one
  statement: the one that sets the raw text, the analysis and the status
  \<^verbatim>\<open>completed\<close> together, or the one that sets the status \<^verbatim>\<open>failed\<close>.
\<close>

theorem analysis_present_iff_completed:
  "list_all analysis_iff_completed (images (db (run evs init)))
   \<and> list_all (awaiting (workers (run evs init))) (images (db (run evs init)))
   \<and> (analyzeImage e imageId d = d
      \<or> (\<exists>text seg. analyzeImage e imageId d = update_result text seg Completed imageId d)
      \<or> analyzeImage e imageId d = update_status Failed imageId d)"
  using sys_inv_run [of evs] analyzeImage_cases [of e imageId d]
  by (simp add: sys_inv_def list_all_iff)

text \<open>
  Two uploads: the run of the second cannot read its file and the run of the first
  gets a response; the first record is completed with its analysis and the second is
  failed without.
\<close>

lemma record_lifecycle_example:
  \<open>map (\<lambda>r. (image_id r, status r, segmentation_data r))
     (images (db (run
        [Upload 7 (str ''a.jpg'') (str ''uploads/a.jpg'') 0,
         Upload 7 (str ''b.jpg'') (str ''uploads/b.jpg'') 1,
         Worker 2 \<lparr>readFile = Inl IOError, generateContent = Inr None,
                   run_result_ok = True, run_failed_ok = True\<rparr>,
         Worker 1 \<lparr>readFile = Inr (), generateContent = Inr (Some (str ''{"weedCoverage":30}'')),
                   run_result_ok = True, run_failed_ok = True\<rparr>]
        init)))
   = [(1, Completed, Some (str ''{"weedCoverage":30}'')), (2, Failed, None)]\<close>
  by (simp add: route_eval analyzeImage_def analyze_try_def response_text_def update_result_def
        update_status_def parse_eval normalize_eval stringify_eval)

text \<open>
  C9. When the user of the request owns the record and the two statements of the
  handler succeed, the answer is a success and no later list of any user has the
  record, whatever \<^verbatim>\<open>fs.unlink\<close> did and whether or not the file was there.
\<close>

theorem deleted_record_not_listed:
  assumes "select_image i u (db (run evs init)) = Some img"
    and "get_ok e" and "run_ok e"
  shows "fst (delete_route e i u (run evs init)) = Ok
       \<and> i \<notin> image_id ` set (list_images uid (run evs' (snd (delete_route e i u (run evs init)))))"
proof -
  let ?s = "run evs init"
  have inv: "sys_inv ?s" by (rule sys_inv_run)
  have img: "img \<in> set (images (db ?s))" "image_id img = i"
    using select_image_Some [OF assms(1)] by auto
  have ok: "fst (delete_route e i u ?s) = Ok"
    using assms by (simp add: delete_route_def Let_def)
  have "i \<le> last_id (db ?s)" using inv img by (auto simp: sys_inv_def)
  then have "gone i (snd (delete_route e i u ?s))"
    using assms inv
    by (auto simp: gone_def delete_route_def delete_image_def Let_def sys_inv_def)
  then have "gone i (run evs' (snd (delete_route e i u ?s)))"
    by (simp add: run_def gone_foldl)
  with ok show ?thesis using gone_not_listed by blast
qed

text \<open>
  Two records of one file: deleting the first removes the file, and the second is
  then deleted although its file is missing and \<^verbatim>\<open>fs.unlink\<close> fails.
\<close>

theorem deleted_record_not_listed_witness:
  "select_image 2 1 (db (run [Upload 1 (str ''a.jpg'') (str ''uploads/a.jpg'') 0,
                              Upload 1 (str ''a.jpg'') (str ''uploads/a.jpg'') 1,
                              Delete \<lparr>get_ok = True, unlink_ok = True, run_ok = True\<rparr> 1 1] init)) \<noteq> None
   \<and> str ''uploads/a.jpg'' \<notin> files (run [Upload 1 (str ''a.jpg'') (str ''uploads/a.jpg'') 0,
                              Upload 1 (str ''a.jpg'') (str ''uploads/a.jpg'') 1,
                              Delete \<lparr>get_ok = True, unlink_ok = True, run_ok = True\<rparr> 1 1] init)
   \<and> fst (delete_route \<lparr>get_ok = True, unlink_ok = False, run_ok = True\<rparr> 2 1
         (run [Upload 1 (str ''a.jpg'') (str ''uploads/a.jpg'') 0,
               Upload 1 (str ''a.jpg'') (str ''uploads/a.jpg'') 1,
               Delete \<lparr>get_ok = True, unlink_ok = True, run_ok = True\<rparr> 1 1] init)) = Ok
   \<and> 2 \<notin> image_id ` set (list_images 1
         (run [Upload 1 (str ''b.jpg'') (str ''uploads/b.jpg'') 2]
           (snd (delete_route \<lparr>get_ok = True, unlink_ok = False, run_ok = True\<rparr> 2 1
             (run [Upload 1 (str ''a.jpg'') (str ''uploads/a.jpg'') 0,
                   Upload 1 (str ''a.jpg'') (str ''uploads/a.jpg'') 1,
                   Delete \<lparr>get_ok = True, unlink_ok = True, run_ok = True\<rparr> 1 1] init)))))"
proof -
  let ?evs = "[Upload 1 (str ''a.jpg'') (str ''uploads/a.jpg'') 0,
               Upload 1 (str ''a.jpg'') (str ''uploads/a.jpg'') 1,
               Delete \<lparr>get_ok = True, unlink_ok = True, run_ok = True\<rparr> 1 1]"
  let ?row = "\<lparr>image_id = 2, user_id = 1, filename = str ''a.jpg'',
               original_path = str ''uploads/a.jpg'', analysis_result = None,
               segmentation_data = None, status = Processing, created_at = 1\<rparr>"
  have s: "select_image 2 1 (db (run ?evs init)) = Some ?row"
    by (simp add: route_eval)
  have f: "str ''uploads/a.jpg'' \<notin> files (run ?evs init)"
    by (simp add: route_eval)
  from deleted_record_not_listed
    [OF s, of "\<lparr>get_ok = True, unlink_ok = False, run_ok = True\<rparr>" 1
       "[Upload 1 (str ''b.jpg'') (str ''uploads/b.jpg'') 2]"]
    s f
  show ?thesis by simp
qed

text \<open>
  C10. When the \<^verbatim>\<open>try\<close> block throws, the write of the \<^verbatim>\<open>catch\<close> block sets the
  status of the record and nothing else: the raw text and the analysis of every row
  are what they were.
\<close>

theorem failed_write_sets_status_only:
  assumes "analyze_try e imageId d = Inl x"
  shows "images (analyzeImage e imageId d) =
           (if run_failed_ok e
            then map (\<lambda>r. if image_id r = imageId then r\<lparr>status := Failed\<rparr> else r) (images d)
            else images d)
       \<and> map analysis_result (images (analyzeImage e imageId d)) = map analysis_result (images d)
       \<and> map segmentation_data (images (analyzeImage e imageId d)) = map segmentation_data (images d)
       \<and> last_id (analyzeImage e imageId d) = last_id d"
  using assms by (simp add: analyzeImage_def update_status_def o_def if_distrib cong: if_cong)

text \<open>
  A run that cannot read its file, on a row that holds a raw text and an analysis.
\<close>

theorem failed_write_sets_status_only_witness:
  "analyze_try \<lparr>readFile = Inl IOError, generateContent = Inr None,
                 run_result_ok = True, run_failed_ok = True\<rparr> 1
     \<lparr>images = [\<lparr>image_id = 1, user_id = 7, filename = str ''a.jpg'',
                  original_path = str ''uploads/a.jpg'', analysis_result = Some (str ''raw''),
                  segmentation_data = Some (str ''{}''), status = Processing, created_at = 0\<rparr>],
       last_id = 1\<rparr> = Inl IOError
   \<and> images (analyzeImage \<lparr>readFile = Inl IOError, generateContent = Inr None,
                 run_result_ok = True, run_failed_ok = True\<rparr> 1
     \<lparr>images = [\<lparr>image_id = 1, user_id = 7, filename = str ''a.jpg'',
                  original_path = str ''uploads/a.jpg'', analysis_result = Some (str ''raw''),
                  segmentation_data = Some (str ''{}''), status = Processing, created_at = 0\<rparr>],
       last_id = 1\<rparr>)
     = [\<lparr>image_id = 1, user_id = 7, filename = str ''a.jpg'',
                  original_path = str ''uploads/a.jpg'', analysis_result = Some (str ''raw''),
                  segmentation_data = Some (str ''{}''), status = Failed, created_at = 0\<rparr>]"
proof -
  let ?e = "\<lparr>readFile = Inl IOError, generateContent = Inr None,
                 run_result_ok = True, run_failed_ok = True\<rparr>"
  let ?d = "\<lparr>images = [\<lparr>image_id = 1, user_id = 7, filename = str ''a.jpg'',
                  original_path = str ''uploads/a.jpg'', analysis_result = Some (str ''raw''),
                  segmentation_data = Some (str ''{}''), status = Processing, created_at = 0\<rparr>],
       last_id = 1\<rparr>"
  have t: "analyze_try ?e 1 ?d = Inl IOError"
    by (simp add: analyze_try_def)
  from failed_write_sets_status_only [OF t] t show ?thesis by simp
qed

end
